theory Spec2Isabelle
  imports Complex_Main "HOL-Library.Word" "HOL-Library.Finite_Map" "HOL-Library.AList"
begin

section \<open>Values and strings\<close>

text \<open>
  A \<open>Uint8Array\<close> is a list of 8-bit words. A JavaScript string is modelled by the
  sequence of its bytes in UTF-8 (\<open>string\<close>, a list of 8-bit characters);
  \<open>encode\<close> is \<open>TextEncoder.encode\<close>. The functions \<open>decode\<close> and
  \<open>toLowerCase\<close> below are \<open>TextDecoder.decode\<close> and
  \<open>String.prototype.toLowerCase\<close> as they act on ASCII text, the text of hex digests
  and identifiers: bytewise decoding, and the ASCII capitals mapped to their small
  letters. On other text the platform's functions do more (lower-casing follows Unicode,
  decoding drops a leading byte order mark and replaces ill-formed sequences); the
  operations that apply them to text nothing constrains take them as parameters, see
  the record \<open>platform\<close> below.
\<close>

type_synonym byte = "8 word"
type_synonym bytes = "byte list"

definition encode :: "string \<Rightarrow> bytes" where
  "encode s = map (\<lambda>c. of_nat (of_char c)) s"

definition decode :: "bytes \<Rightarrow> string" where
  "decode bs = map (\<lambda>b. char_of (unat b)) bs"

definition lower_char :: "char \<Rightarrow> char" where
  "lower_char c =
     (let n = (of_char c :: nat) in if 65 \<le> n \<and> n \<le> 90 then char_of (n + 32) else c)"

definition toLowerCase :: "string \<Rightarrow> string" where
  "toLowerCase s = map lower_char s"

definition upper_char :: "char \<Rightarrow> char" where
  "upper_char c =
     (let n = (of_char c :: nat) in if 97 \<le> n \<and> n \<le> 122 then char_of (n - 32) else c)"

text \<open>Two strings are equal up to ASCII letter case when they have the same length and
  at every position the characters are equal or are the two cases of one letter.\<close>

definition same_letter :: "char \<Rightarrow> char \<Rightarrow> bool" where
  "same_letter a b = (a = b \<or> a = upper_char b \<and> a \<noteq> b \<or> b = upper_char a \<and> a \<noteq> b)"

definition eq_ignoring_case :: "string \<Rightarrow> string \<Rightarrow> bool" where
  "eq_ignoring_case s t = list_all2 same_letter s t"


definition startsWith :: "string \<Rightarrow> string \<Rightarrow> bool" where
  "startsWith s p = (take (length p) s = p)"

text \<open>\<open>xs.slice(a, b)\<close> for indices \<open>0 \<le> a\<close>, \<open>0 \<le> b\<close>.\<close>

definition slice :: "nat \<Rightarrow> nat \<Rightarrow> 'a list \<Rightarrow> 'a list" where
  "slice a b xs = drop a (take b xs)"

text \<open>Decimal rendering of a number in a template literal.\<close>

definition digit_char :: "nat \<Rightarrow> char" where
  "digit_char d = char_of (48 + d)"

fun show_nat :: "nat \<Rightarrow> string" where
  "show_nat n = (if n < 10 then [digit_char n] else show_nat (n div 10) @ [digit_char (n mod 10)])"

subsection \<open>JavaScript values\<close>

text \<open>A number is a finite value, given as the rational it denotes, or one of the three
  values that are not finite.\<close>

datatype jsnum = Fin rat | NaN | PosInfinity | NegInfinity

text \<open>
  A plain object is a finite map from property names to values: the order in which the
  properties were inserted is not part of the value. \<open>JFunction\<close> stands for the
  values that JSON cannot represent (functions, symbols).
\<close>

datatype jsval =
    JUndefined
  | JNull
  | JBool bool
  | JNum jsnum
  | JStr string
  | JArr "jsval list"
  | JObj "(string, jsval) fmap"
  | JFunction

definition truthy :: "jsval \<Rightarrow> bool" where
  "truthy v = (case v of
       JUndefined \<Rightarrow> False
     | JNull \<Rightarrow> False
     | JBool b \<Rightarrow> b
     | JNum n \<Rightarrow> (case n of Fin i \<Rightarrow> i \<noteq> 0 | NaN \<Rightarrow> False | _ \<Rightarrow> True)
     | JStr s \<Rightarrow> s \<noteq> []
     | _ \<Rightarrow> True)"

text \<open>\<open>typeof v === 'object'\<close>: true of null, arrays and objects.\<close>

definition typeof_object :: "jsval \<Rightarrow> bool" where
  "typeof_object v = (case v of JNull \<Rightarrow> True | JArr _ \<Rightarrow> True | JObj _ \<Rightarrow> True | _ \<Rightarrow> False)"

definition isArray :: "jsval \<Rightarrow> bool" where
  "isArray v = (case v of JArr _ \<Rightarrow> True | _ \<Rightarrow> False)"

text \<open>Reading a named property of a value that is neither null nor undefined. The names
  read in this development are never properties of arrays or primitives.\<close>

definition get_prop :: "jsval \<Rightarrow> string \<Rightarrow> jsval" where
  "get_prop v k = (case v of
       JObj m \<Rightarrow> (case fmlookup m k of None \<Rightarrow> JUndefined | Some x \<Rightarrow> x)
     | _ \<Rightarrow> JUndefined)"

subsection \<open>Errors\<close>

datatype cipher_op = Encryption | Decryption

datatype commitment_kind = StateCommitment | CiphertextHash

datatype envelope_defect = ParseFailed string | MissingFields

text \<open>Every \<open>throw\<close> of the source is one constructor, carrying the values its message
  interpolates. \<open>Thrown\<close> is an exception that comes out of a library, the runtime or
  an external collaborator unchanged.\<close>

datatype error =
    CapsuleNotObject
  | CapsuleVersionInvalid
  | CapsulePayloadInvalid
  | CanonicalizeUndefined
  | CapsuleParseFailed string
  | InvalidKeyLength cipher_op nat
  | TooShort nat
  | AuthenticationFailed string
  | WrapFailed
  | UnwrapFailed
  | CommitmentMismatch commitment_kind string string
  | GenesisPredecessorNotZero string
  | LineageBroken nat string string
  | LineageCycle string
  | CheckpointNotFound string
  | MalformedEnvelope envelope_defect
  | EnvelopeNotYetAvailable
  | SignerRequired
  | NoKeyStored string
  | ConsumerKeyLength nat
  | Thrown string

definition emdash :: string where
  "emdash = [CHR 0xE2, CHR 0x80, CHR 0x94]"

fun message :: "error \<Rightarrow> string" where
  "message CapsuleNotObject = ''Mindstate: capsule must be a non-null object''"
| "message CapsuleVersionInvalid = ''Mindstate: capsule.version must be a non-empty string''"
| "message CapsulePayloadInvalid = ''Mindstate: capsule.payload must be a non-null object''"
| "message CanonicalizeUndefined =
     ''Mindstate: canonicalize returned undefined '' @ emdash @ '' input may contain unsupported types''"
| "message (CapsuleParseFailed m) =
     ''Mindstate: failed to parse capsule bytes as JSON '' @ emdash @ '' '' @ m"
| "message (InvalidKeyLength Encryption n) =
     ''Mindstate: encryption key must be '' @ show_nat 32 @ '' bytes, got '' @ show_nat n"
| "message (InvalidKeyLength Decryption n) =
     ''Mindstate: decryption key must be '' @ show_nat 32 @ '' bytes, got '' @ show_nat n"
| "message (TooShort n) =
     ''Mindstate: sealed data too short '' @ emdash @ '' expected at least '' @ show_nat (12 + 16)
       @ '' bytes, got '' @ show_nat n"
| "message (AuthenticationFailed m) =
     ''Mindstate: AES-256-GCM decryption failed '' @ emdash @ '' '' @ m"
| "message WrapFailed = ''Mindstate: NaCl box encryption failed during key wrapping''"
| "message UnwrapFailed =
     ''Mindstate: NaCl box decryption failed '' @ emdash
       @ '' the key envelope may be corrupt or the wrong secret key was provided''"
| "message (CommitmentMismatch StateCommitment expected computed) =
     ''Mindstate: state commitment mismatch '' @ emdash @ '' computed '' @ computed
       @ '', expected '' @ expected"
| "message (CommitmentMismatch CiphertextHash expected computed) =
     ''Mindstate: ciphertext hash mismatch '' @ emdash @ '' computed '' @ computed
       @ '', expected '' @ expected"
| "message (GenesisPredecessorNotZero p) =
     ''Mindstate: first checkpoint predecessor must be zero '' @ emdash @ '' got '' @ p"
| "message (LineageBroken i expected got) =
     ''Mindstate: checkpoint lineage broken at index '' @ show_nat i @ '' '' @ emdash
       @ '' expected predecessorId '' @ expected @ '', got '' @ got"
| "message (LineageCycle c) =
     ''Mindstate: cycle detected at checkpoint '' @ c @ '' during lineage walk''"
| "message (CheckpointNotFound c) =
     ''Mindstate: checkpoint '' @ c @ '' not found during lineage walk''"
| "message (MalformedEnvelope (ParseFailed m)) =
     ''Mindstate: failed to parse key envelope '' @ emdash @ '' '' @ m"
| "message (MalformedEnvelope MissingFields) =
     ''Mindstate: invalid key envelope '' @ emdash @ '' missing required fields''"
| "message EnvelopeNotYetAvailable =
     ''Mindstate: key envelope is not yet available for this checkpoint. ''
       @ ''The publisher may not have fulfilled this redemption yet. ''
       @ ''Call redeem() manually after confirming with the publisher, or wait and retry.''"
| "message SignerRequired =
     ''Mindstate: a signer is required to consume checkpoints (needed for redemption)''"
| "message (NoKeyStored c) =
     ''Mindstate: no key stored for checkpoint '' @ c @ ''. ''
       @ ''Was storeKey() called after publishing?''"
| "message (ConsumerKeyLength n) =
     ''Mindstate: consumer public key must be 32 bytes, got '' @ show_nat n"
| "message (Thrown m) = m"

definition bindE :: "error + 'a \<Rightarrow> ('a \<Rightarrow> error + 'b) \<Rightarrow> error + 'b" where
  "bindE r f = (case r of Inl e \<Rightarrow> Inl e | Inr a \<Rightarrow> f a)"

text \<open>A call on an external collaborator (the contract, a storage or key delivery
  provider, the signer) resolves with a value or rejects with an exception of the
  collaborator's own, known here by its message.\<close>

definition await :: "string + 'a \<Rightarrow> error + 'a" where
  "await p = (case p of Inl m \<Rightarrow> Inl (Thrown m) | Inr a \<Rightarrow> Inr a)"


section \<open>Hex strings\<close>

definition hex_digit :: "nat \<Rightarrow> char" where
  "hex_digit d = (''0123456789abcdef'') ! d"

text \<open>\<open>toHex\<close>: \<open>'0x'\<close>, then \<open>b.toString(16).padStart(2, '0')\<close> for every byte.\<close>

definition hex_byte :: "byte \<Rightarrow> string" where
  "hex_byte b = [hex_digit (unat b div 16), hex_digit (unat b mod 16)]"

definition toHex :: "bytes \<Rightarrow> string" where
  "toHex bs = ''0x'' @ concat (map hex_byte bs)"

definition hex_value :: "char \<Rightarrow> nat option" where
  "hex_value c =
     (let n = (of_char c :: nat) in
      if 48 \<le> n \<and> n \<le> 57 then Some (n - 48)
      else if 97 \<le> n \<and> n \<le> 102 then Some (n - 87)
      else if 65 \<le> n \<and> n \<le> 70 then Some (n - 55)
      else None)"

definition is_space :: "char \<Rightarrow> bool" where
  "is_space c = ((of_char c :: nat) \<in> {9, 10, 11, 12, 13, 32})"

fun hex_prefix_value :: "nat option \<Rightarrow> string \<Rightarrow> nat option" where
  "hex_prefix_value acc [] = acc"
| "hex_prefix_value acc (c # cs) =
     (case hex_value c of
        None \<Rightarrow> acc
      | Some d \<Rightarrow> hex_prefix_value (Some ((case acc of None \<Rightarrow> 0 | Some a \<Rightarrow> a) * 16 + d)) cs)"

text \<open>
  \<open>parseInt(s, 16)\<close>: leading white space is skipped, then an optional sign, then an
  optional \<open>0x\<close> or \<open>0X\<close>, then the longest run of hexadecimal digits; \<open>None\<close> is
  \<open>NaN\<close>, the result when that run is empty.
\<close>

definition parseInt16 :: "string \<Rightarrow> int option" where
  "parseInt16 s =
     (let s1 = dropWhile is_space s;
          neg = (s1 \<noteq> [] \<and> hd s1 = CHR ''-'');
          s2 = (if s1 \<noteq> [] \<and> (hd s1 = CHR ''-'' \<or> hd s1 = CHR ''+'') then tl s1 else s1);
          s3 = (if startsWith s2 ''0x'' \<or> startsWith s2 ''0X'' then drop 2 s2 else s2)
      in case hex_prefix_value None s3 of
           None \<Rightarrow> None
         | Some v \<Rightarrow> Some (if neg then - int v else int v))"

text \<open>Storing a number into a \<open>Uint8Array\<close> element: \<open>NaN\<close> becomes 0, an integer is
  taken modulo 256.\<close>

definition toUint8 :: "int option \<Rightarrow> byte" where
  "toUint8 v = (case v of None \<Rightarrow> 0 | Some i \<Rightarrow> word_of_int i)"

text \<open>\<open>fromHex\<close>: an array of \<open>clean.length / 2\<close> elements (a fractional length is
  truncated), element \<open>i\<close> parsed from the two characters at \<open>2 * i\<close>. Nothing checks
  that the characters are hexadecimal digits. Lengths and slices count bytes of the
  model and the white space skipped is the ASCII white space, so this is the source's
  \<open>fromHex\<close> on ASCII strings; what is proved of it is stated for those.\<close>

definition fromHex :: "string \<Rightarrow> bytes" where
  "fromHex hex =
     (let clean = (if startsWith hex ''0x'' then drop 2 hex else hex)
      in map (\<lambda>i. toUint8 (parseInt16 (slice (i * 2) (i * 2 + 2) clean)))
             [0 ..< length clean div 2])"

section \<open>The libraries and the platform\<close>

text \<open>
  The hash, the canonical JSON encoder, the JSON parser and printer, the AES-256-GCM
  cipher and the NaCl box are libraries outside the repository. They are the fields of a
  record that every function below takes as its first argument. A library call that
  throws returns \<open>Inl\<close> with the exception's message; \<open>canonicalize\<close> may also return
  \<open>undefined\<close> and \<open>nacl.box.open\<close> \<open>null\<close> (\<open>None\<close>).
\<close>

record lib =
  keccak_256 :: "bytes \<Rightarrow> bytes"
  canonicalize :: "jsval \<Rightarrow> string + string option"
  JSON_parse :: "string \<Rightarrow> string + jsval"
  JSON_stringify :: "jsval \<Rightarrow> string"
  aes_gcm_encrypt :: "bytes \<Rightarrow> bytes \<Rightarrow> bytes \<Rightarrow> bytes \<times> bytes"
  aes_gcm_decrypt :: "bytes \<Rightarrow> bytes \<Rightarrow> bytes \<Rightarrow> bytes \<Rightarrow> string + bytes"
  box_keyPair_fromSecretKey :: "bytes \<Rightarrow> string + bytes"
  nacl_box :: "bytes \<Rightarrow> bytes \<Rightarrow> bytes \<Rightarrow> bytes \<Rightarrow> string + bytes option"
  nacl_box_open :: "bytes \<Rightarrow> bytes \<Rightarrow> bytes \<Rightarrow> bytes \<Rightarrow> string + bytes option"

text \<open>
  Two functions of the platform are applied to text that nothing constrains:
  \<open>String.prototype.toLowerCase\<close> to the identifiers of a lineage and to the arguments
  of the envelope identifier, \<open>TextDecoder.decode\<close> to the bytes of a stored envelope.
  There they are parameters, the fields of this record.
\<close>

record platform =
  String_toLowerCase :: "string \<Rightarrow> string"
  TextDecoder_decode :: "bytes \<Rightarrow> string"

text \<open>Lower-casing is blind to ASCII letter case when strings that are equal up to ASCII
  letter case have the same lower-case form. JavaScript's is: an ASCII letter is a cased
  letter in either case, so changing it changes neither the context of another letter
  nor anything but its own image.\<close>

definition ascii_case_blind :: "platform \<Rightarrow> bool" where
  "ascii_case_blind P =
     (\<forall>s t. eq_ignoring_case s t \<longrightarrow> String_toLowerCase P s = String_toLowerCase P t)"

text \<open>The random source is an infinite tape of bytes; \<open>randomBytes n\<close> reads the next
  \<open>n\<close> of them.\<close>

type_synonym rng = "nat \<Rightarrow> byte"

definition randomBytes :: "nat \<Rightarrow> rng \<Rightarrow> bytes \<times> rng" where
  "randomBytes n r = (map r [0 ..< n], \<lambda>i. r (n + i))"

text \<open>\<open>target.set(source, offset)\<close> on typed arrays.\<close>

definition array_set :: "bytes \<Rightarrow> bytes \<Rightarrow> nat \<Rightarrow> error + bytes" where
  "array_set target source offset =
     (if offset + length source > length target then Inl (Thrown ''RangeError: offset is out of bounds'')
      else Inr (take offset target @ source @ drop (offset + length source) target))"

section \<open>Capsule serialization\<close>

definition canonicalBytes :: "lib \<Rightarrow> jsval \<Rightarrow> error + bytes" where
  "canonicalBytes L v =
     (case canonicalize L v of
        Inl m \<Rightarrow> Inl (Thrown m)
      | Inr None \<Rightarrow> Inl CanonicalizeUndefined
      | Inr (Some json) \<Rightarrow> Inr (encode json))"

definition assertValidCapsule :: "jsval \<Rightarrow> error + unit" where
  "assertValidCapsule capsule =
     (if capsule = JNull \<or> \<not> typeof_object capsule then Inl CapsuleNotObject
      else if (case get_prop capsule ''version'' of JStr s \<Rightarrow> length s = 0 | _ \<Rightarrow> True)
        then Inl CapsuleVersionInvalid
      else if get_prop capsule ''payload'' = JNull \<or> get_prop capsule ''payload'' = JUndefined
              \<or> \<not> typeof_object (get_prop capsule ''payload'')
              \<or> isArray (get_prop capsule ''payload'')
        then Inl CapsulePayloadInvalid
      else Inr ())"

definition serializeCapsule :: "lib \<Rightarrow> jsval \<Rightarrow> error + bytes" where
  "serializeCapsule L capsule =
     bindE (assertValidCapsule capsule) (\<lambda>_. canonicalBytes L capsule)"

definition deserializeCapsule :: "lib \<Rightarrow> bytes \<Rightarrow> error + jsval" where
  "deserializeCapsule L bs =
     (case JSON_parse L (decode bs) of
        Inl m \<Rightarrow> Inl (CapsuleParseFailed m)
      | Inr parsed \<Rightarrow> bindE (assertValidCapsule parsed) (\<lambda>_. Inr parsed))"

definition serializeCanonical :: "lib \<Rightarrow> jsval \<Rightarrow> error + bytes" where
  "serializeCanonical L v = canonicalBytes L v"

section \<open>Commitments\<close>

definition ZERO_BYTES32 :: string where
  "ZERO_BYTES32 = ''0x'' @ replicate 64 (CHR ''0'')"

definition hashBytes :: "lib \<Rightarrow> bytes \<Rightarrow> string" where
  "hashBytes L d = toHex (keccak_256 L d)"

definition computeStateCommitment :: "lib \<Rightarrow> jsval \<Rightarrow> error + string" where
  "computeStateCommitment L capsule =
     bindE (serializeCapsule L capsule) (\<lambda>bs. Inr (hashBytes L bs))"

definition computeMetadataHash :: "lib \<Rightarrow> jsval \<Rightarrow> error + string" where
  "computeMetadataHash L v =
     bindE (serializeCanonical L v) (\<lambda>bs. Inr (hashBytes L bs))"

definition computeCiphertextHash :: "lib \<Rightarrow> bytes \<Rightarrow> string" where
  "computeCiphertextHash L ct = hashBytes L ct"

section \<open>Encryption and key wrapping\<close>

definition IV_LENGTH :: nat where "IV_LENGTH = 12"
definition AUTH_TAG_LENGTH :: nat where "AUTH_TAG_LENGTH = 16"
definition KEY_LENGTH :: nat where "KEY_LENGTH = 32"

definition generateContentKey :: "rng \<Rightarrow> bytes \<times> rng" where
  "generateContentKey r = randomBytes KEY_LENGTH r"

definition encrypt :: "lib \<Rightarrow> rng \<Rightarrow> bytes \<Rightarrow> bytes \<Rightarrow> error + bytes \<times> rng" where
  "encrypt L r plaintext key =
     (if length key \<noteq> KEY_LENGTH then Inl (InvalidKeyLength Encryption (length key))
      else
        let (iv, r') = randomBytes IV_LENGTH r;
            (encrypted, authTag) = aes_gcm_encrypt L key iv plaintext;
            result = replicate (IV_LENGTH + length encrypted + AUTH_TAG_LENGTH) 0
        in bindE (array_set result iv 0) (\<lambda>r1.
           bindE (array_set r1 encrypted IV_LENGTH) (\<lambda>r2.
           bindE (array_set r2 authTag (IV_LENGTH + length encrypted)) (\<lambda>r3.
           Inr (r3, r')))))"

definition decrypt :: "lib \<Rightarrow> bytes \<Rightarrow> bytes \<Rightarrow> error + bytes" where
  "decrypt L sealed key =
     (if length key \<noteq> KEY_LENGTH then Inl (InvalidKeyLength Decryption (length key))
      else if length sealed < IV_LENGTH + AUTH_TAG_LENGTH then Inl (TooShort (length sealed))
      else
        let iv = slice 0 IV_LENGTH sealed;
            authTag = drop (length sealed - AUTH_TAG_LENGTH) sealed;
            ciphertext = slice IV_LENGTH (length sealed - AUTH_TAG_LENGTH) sealed
        in case aes_gcm_decrypt L key iv authTag ciphertext of
             Inl m \<Rightarrow> Inl (AuthenticationFailed m)
           | Inr decrypted \<Rightarrow> Inr decrypted)"

record 'i envelope =
  checkpointId_e :: 'i
  wrappedKey :: bytes
  nonce :: bytes
  senderPublicKey :: bytes

type_synonym KeyEnvelope = "string envelope"

definition box_nonceLength :: nat where "box_nonceLength = 24"

definition wrapKey :: "lib \<Rightarrow> rng \<Rightarrow> bytes \<Rightarrow> bytes \<Rightarrow> bytes \<Rightarrow> error + KeyEnvelope \<times> rng" where
  "wrapKey L r contentKey recipientPublicKey senderSecretKey =
     (let (n, r') = randomBytes box_nonceLength r
      in case box_keyPair_fromSecretKey L senderSecretKey of
           Inl m \<Rightarrow> Inl (Thrown m)
         | Inr spk \<Rightarrow>
            (case nacl_box L contentKey n recipientPublicKey senderSecretKey of
               Inl m \<Rightarrow> Inl (Thrown m)
             | Inr None \<Rightarrow> Inl WrapFailed
             | Inr (Some wrapped) \<Rightarrow>
                 Inr (\<lparr>checkpointId_e = [], wrappedKey = wrapped, nonce = n,
                       senderPublicKey = spk\<rparr>, r')))"

definition unwrapKey :: "lib \<Rightarrow> KeyEnvelope \<Rightarrow> bytes \<Rightarrow> error + bytes" where
  "unwrapKey L env recipientSecretKey =
     (case nacl_box_open L (wrappedKey env) (nonce env) (senderPublicKey env) recipientSecretKey of
        Inl m \<Rightarrow> Inl (Thrown m)
      | Inr None \<Rightarrow> Inl UnwrapFailed
      | Inr (Some contentKey) \<Rightarrow> Inr contentKey)"

section \<open>Verification\<close>

definition verifyStateCommitment :: "lib \<Rightarrow> jsval \<Rightarrow> string \<Rightarrow> error + bool" where
  "verifyStateCommitment L capsule expectedCommitment =
     bindE (computeStateCommitment L capsule) (\<lambda>computed.
       let normComputed = toLowerCase computed;
           normExpected = toLowerCase expectedCommitment
       in if normComputed \<noteq> normExpected
          then Inl (CommitmentMismatch StateCommitment expectedCommitment computed)
          else Inr True)"

definition verifyCiphertextHash :: "lib \<Rightarrow> bytes \<Rightarrow> string \<Rightarrow> error + bool" where
  "verifyCiphertextHash L ciphertext expectedHash =
     (let computed = computeCiphertextHash L ciphertext;
          normComputed = toLowerCase computed;
          normExpected = toLowerCase expectedHash
      in if normComputed \<noteq> normExpected
         then Inl (CommitmentMismatch CiphertextHash expectedHash computed)
         else Inr True)"

record CheckpointRecord =
  checkpointId :: string
  predecessorId :: string
  stateCommitment :: string
  ciphertextHash :: string
  ciphertextUri :: string
  manifestHash :: string
  publishedAt :: nat
  blockNumber :: nat




definition verifyAndDecrypt :: "lib \<Rightarrow> bytes \<Rightarrow> bytes \<Rightarrow> string \<Rightarrow> string \<Rightarrow> error + jsval" where
  "verifyAndDecrypt L ciphertext key expectedStateCommitment expectedCiphertextHash =
     bindE (verifyCiphertextHash L ciphertext expectedCiphertextHash) (\<lambda>_.
     bindE (decrypt L ciphertext key) (\<lambda>plaintext.
     bindE (deserializeCapsule L plaintext) (\<lambda>capsule.
     bindE (verifyStateCommitment L capsule expectedStateCommitment) (\<lambda>_.
     Inr capsule))))"


section \<open>Sealed mode\<close>

record SealedCapsule =
  ciphertext :: bytes
  contentHash :: string
  stateCommitment_s :: string
  metadataHash :: string
  encryptionKey :: bytes

text \<open>An omitted optional argument is \<open>JUndefined\<close> for \<open>metadata\<close> and \<open>None\<close> for
  the two optional strings of \<open>unseal\<close>.\<close>

definition seal :: "lib \<Rightarrow> rng \<Rightarrow> jsval \<Rightarrow> jsval \<Rightarrow> error + SealedCapsule \<times> rng" where
  "seal L r capsule metadata =
     bindE (serializeCapsule L capsule) (\<lambda>plaintext.
     bindE (computeStateCommitment L capsule) (\<lambda>sc.
     bindE (if truthy metadata then computeMetadataHash L metadata
            else Inr (''0x'' @ replicate 64 (CHR ''0''))) (\<lambda>mh.
       let (k, r1) = generateContentKey r
       in bindE (encrypt L r1 plaintext k) (\<lambda>(ct, r2).
            let ch = computeCiphertextHash L ct
            in Inr (\<lparr>ciphertext = ct, contentHash = ch, stateCommitment_s = sc,
                     metadataHash = mh, encryptionKey = k\<rparr>, r2)))))"

definition given :: "string option \<Rightarrow> bool" where
  "given a = (case a of None \<Rightarrow> False | Some s \<Rightarrow> s \<noteq> [])"

definition unseal :: "lib \<Rightarrow> bytes \<Rightarrow> bytes \<Rightarrow> string option \<Rightarrow> string option \<Rightarrow> error + jsval" where
  "unseal L ct key sc ch =
     bindE (case ch of
              Some h \<Rightarrow> if given ch then verifyCiphertextHash L ct h else Inr True
            | None \<Rightarrow> Inr True) (\<lambda>_.
     bindE (decrypt L ct key) (\<lambda>plaintext.
     bindE (deserializeCapsule L plaintext) (\<lambda>capsule.
     bindE (case sc of
              Some c \<Rightarrow> if given sc then verifyStateCommitment L capsule c else Inr True
            | None \<Rightarrow> Inr True) (\<lambda>_.
     Inr capsule))))"

section \<open>Key delivery\<close>

definition computeEnvelopeId :: "lib \<Rightarrow> platform \<Rightarrow> string \<Rightarrow> string \<Rightarrow> string \<Rightarrow> string" where
  "computeEnvelopeId L P tokenAddress cid consumerAddress =
     (let input = String_toLowerCase P tokenAddress @ '':'' @ String_toLowerCase P cid @ '':''
                    @ String_toLowerCase P consumerAddress
      in toHex (keccak_256 L (encode input)))"

definition envelope_json :: "KeyEnvelope \<Rightarrow> jsval" where
  "envelope_json env =
     JObj (fmap_of_list
       [(''checkpointId'', JStr (checkpointId_e env)),
        (''wrappedKey'', JStr (toHex (wrappedKey env))),
        (''nonce'', JStr (toHex (nonce env))),
        (''senderPublicKey'', JStr (toHex (senderPublicKey env)))])"




record StoreParams =
  tokenAddress :: string
  checkpointId_p :: string
  consumerAddress :: string
  envelope :: KeyEnvelope

text \<open>A key delivery provider is an external collaborator: each of its two operations
  resolves or rejects.\<close>

record KeyDeliveryProvider =
  storeEnvelope :: "StoreParams \<Rightarrow> string + unit"
  fetchEnvelope :: "string \<Rightarrow> string \<Rightarrow> string \<Rightarrow> string + KeyEnvelope"

record KeyPair =
  publicKey :: bytes
  secretKey :: bytes

subsection \<open>PublisherKeyManager\<close>

text \<open>The \<open>Map\<close> of keys is an association list in insertion order; \<open>Map.set\<close> replaces
  the value of a key that is present and appends one that is not.\<close>

record PublisherKeyManager =
  keyPair :: KeyPair
  delivery :: KeyDeliveryProvider
  keys :: "(string \<times> bytes) list"

definition newPublisherKeyManager :: "KeyPair \<Rightarrow> KeyDeliveryProvider \<Rightarrow> PublisherKeyManager" where
  "newPublisherKeyManager kp d = \<lparr>keyPair = kp, delivery = d, keys = []\<rparr>"

definition storeKey :: "PublisherKeyManager \<Rightarrow> string \<Rightarrow> bytes \<Rightarrow> PublisherKeyManager" where
  "storeKey m cid key = m\<lparr>keys := AList.update (toLowerCase cid) key (keys m)\<rparr>"

text \<open>\<open>fulfillRedemption\<close> returns the parameters it has passed to \<open>storeEnvelope\<close>.\<close>

definition fulfillRedemption ::
  "lib \<Rightarrow> rng \<Rightarrow> PublisherKeyManager \<Rightarrow> string \<Rightarrow> string \<Rightarrow> string \<Rightarrow> bytes
     \<Rightarrow> error + StoreParams \<times> rng" where
  "fulfillRedemption L r m tok cid consumer consumerPublicKey =
     (let normalizedId = toLowerCase cid
      in case map_of (keys m) normalizedId of
           None \<Rightarrow> Inl (NoKeyStored cid)
         | Some K \<Rightarrow>
             if length consumerPublicKey \<noteq> 32 then Inl (ConsumerKeyLength (length consumerPublicKey))
             else
               bindE (wrapKey L r K consumerPublicKey (secretKey (keyPair m))) (\<lambda>(env, r').
                 let env' = env\<lparr>checkpointId_e := cid\<rparr>;
                     params = \<lparr>tokenAddress = tok, checkpointId_p = cid,
                               consumerAddress = consumer, envelope = env'\<rparr>
                 in bindE (await (storeEnvelope (delivery m) params)) (\<lambda>_. Inr (params, r'))))"

definition hasKey :: "PublisherKeyManager \<Rightarrow> string \<Rightarrow> bool" where
  "hasKey m cid = (map_of (keys m) (toLowerCase cid) \<noteq> None)"

definition exportKeys :: "PublisherKeyManager \<Rightarrow> (string \<times> string) list" where
  "exportKeys m = map (\<lambda>(cid, key). (cid, toHex key)) (keys m)"

text \<open>\<open>importKeys\<close> takes the entries of its argument in the order of \<open>Object.entries\<close>.\<close>

definition importKeys :: "PublisherKeyManager \<Rightarrow> (string \<times> string) list \<Rightarrow> PublisherKeyManager" where
  "importKeys m entries =
     foldl (\<lambda>m' (cid, hex). m'\<lparr>keys := AList.update (toLowerCase cid) (fromHex hex) (keys m')\<rparr>)
       m entries"

text \<open>Every key of the manager's map is in lower case: the form in which \<open>hasKey\<close> and
  \<open>fulfillRedemption\<close> look an identifier up.\<close>

definition keys_normalized :: "(string \<times> bytes) list \<Rightarrow> bool" where
  "keys_normalized ks = (\<forall>k \<in> fst ` set ks. toLowerCase k = k)"

subsection \<open>OnChainPublisherKeyManager\<close>

record OnChainPublisherKeyManager =
  keyPair_oc :: KeyPair
  delivery_oc :: KeyDeliveryProvider
  keys_oc :: "(string \<times> bytes) list"

definition newOnChainPublisherKeyManager ::
  "KeyPair \<Rightarrow> KeyDeliveryProvider \<Rightarrow> OnChainPublisherKeyManager" where
  "newOnChainPublisherKeyManager kp d = \<lparr>keyPair_oc = kp, delivery_oc = d, keys_oc = []\<rparr>"

definition storeKey_oc ::
  "OnChainPublisherKeyManager \<Rightarrow> string \<Rightarrow> bytes \<Rightarrow> OnChainPublisherKeyManager" where
  "storeKey_oc m cid key = m\<lparr>keys_oc := AList.update (toLowerCase cid) key (keys_oc m)\<rparr>"

definition fulfillRedemption_oc ::
  "lib \<Rightarrow> rng \<Rightarrow> OnChainPublisherKeyManager \<Rightarrow> string \<Rightarrow> string \<Rightarrow> string \<Rightarrow> bytes
     \<Rightarrow> error + StoreParams \<times> rng" where
  "fulfillRedemption_oc L r m tok cid consumer consumerPublicKey =
     (let normalizedId = toLowerCase cid
      in case map_of (keys_oc m) normalizedId of
           None \<Rightarrow> Inl (NoKeyStored cid)
         | Some K \<Rightarrow>
             if length consumerPublicKey \<noteq> 32 then Inl (ConsumerKeyLength (length consumerPublicKey))
             else
               bindE (wrapKey L r K consumerPublicKey (secretKey (keyPair_oc m))) (\<lambda>(env, r').
                 let env' = env\<lparr>checkpointId_e := cid\<rparr>;
                     params = \<lparr>tokenAddress = tok, checkpointId_p = cid,
                               consumerAddress = consumer, envelope = env'\<rparr>
                 in bindE (await (storeEnvelope (delivery_oc m) params)) (\<lambda>_. Inr (params, r'))))"

definition hasKey_oc :: "OnChainPublisherKeyManager \<Rightarrow> string \<Rightarrow> bool" where
  "hasKey_oc m cid = (map_of (keys_oc m) (toLowerCase cid) \<noteq> None)"

section \<open>Explorer: the lineage walk\<close>

record ContractCheckpoint =
  predecessorId_c :: string
  stateCommitment_c :: string
  ciphertextHash_c :: string
  ciphertextUri_c :: string
  manifestHash_c :: string
  publishedAt_c :: nat
  blockNumber_c :: nat

definition parseCheckpointFromContract :: "string \<Rightarrow> ContractCheckpoint \<Rightarrow> CheckpointRecord" where
  "parseCheckpointFromContract cid cp =
     \<lparr>checkpointId = cid, predecessorId = predecessorId_c cp,
      stateCommitment = stateCommitment_c cp, ciphertextHash = ciphertextHash_c cp,
      ciphertextUri = ciphertextUri_c cp, manifestHash = manifestHash_c cp,
      publishedAt = publishedAt_c cp, blockNumber = blockNumber_c cp\<rparr>"

text \<open>
  The contract is the external record source: \<open>getCheckpoint\<close> of a token address and an
  identifier resolves to a record or rejects.
\<close>

type_synonym contract = "string \<Rightarrow> string \<Rightarrow> string + ContractCheckpoint"

text \<open>\<open>maxDepth\<close> is a JavaScript number, which nothing validates. The loop compares the
  length of the lineage with it: \<open>lineage.length < maxDepth\<close>.\<close>

fun less_num :: "nat \<Rightarrow> jsnum \<Rightarrow> bool" where
  "less_num n (Fin q) = (of_nat n < q)"
| "less_num n NaN = False"
| "less_num n PosInfinity = True"
| "less_num n NegInfinity = False"

text \<open>
  The loop of \<open>getLineage\<close>. With its result the walk returns the identifiers it has
  looked up, in order. Nothing in the loop bounds it when \<open>maxDepth\<close> is \<open>Infinity\<close>, so
  a walk that does not return has the value \<open>None\<close>.
\<close>

partial_function (option) lineage_walk ::
  "platform \<Rightarrow> (string \<Rightarrow> string + ContractCheckpoint) \<Rightarrow> jsnum \<Rightarrow> string
     \<Rightarrow> CheckpointRecord list \<Rightarrow> string set \<Rightarrow> string list
     \<Rightarrow> (string list \<times> (error + CheckpointRecord list)) option" where
  "lineage_walk P ct maxDepth currentId lineage visited lookups =
     (if currentId \<noteq> ZERO_BYTES32 \<and> less_num (length lineage) maxDepth then
        (let normalizedId = String_toLowerCase P currentId
         in if normalizedId \<in> visited then Some (lookups, Inl (LineageCycle currentId))
            else
              (case ct currentId of
                 Inl m \<Rightarrow> Some (lookups @ [currentId], Inl (Thrown m))
               | Inr cp \<Rightarrow>
                   if publishedAt_c cp = 0
                   then Some (lookups @ [currentId], Inl (CheckpointNotFound currentId))
                   else lineage_walk P ct maxDepth (predecessorId_c cp)
                          (lineage @ [parseCheckpointFromContract currentId cp])
                          (insert normalizedId visited) (lookups @ [currentId])))
      else Some (lookups, Inr lineage))"

definition getLineage ::
  "platform \<Rightarrow> contract \<Rightarrow> string \<Rightarrow> string \<Rightarrow> jsnum
     \<Rightarrow> (string list \<times> (error + CheckpointRecord list)) option" where
  "getLineage P ct tok cid maxDepth = lineage_walk P (ct tok) maxDepth cid [] {} []"

text \<open>The parameter \<open>maxDepth\<close> has the default value 10000.\<close>

definition getLineage_default ::
  "platform \<Rightarrow> contract \<Rightarrow> string \<Rightarrow> string
     \<Rightarrow> (string list \<times> (error + CheckpointRecord list)) option" where
  "getLineage_default P ct tok cid = getLineage P ct tok cid (Fin 10000)"

text \<open>The state of the loop after some iterations of a walk: the records collected are
  those of the identifiers looked up, in order; the lower-case forms of those identifiers
  are distinct, and the visited set holds them.\<close>

definition walk_state ::
  "platform \<Rightarrow> CheckpointRecord list \<Rightarrow> string set \<Rightarrow> string list \<Rightarrow> bool" where
  "walk_state P lin vis lk =
     (map checkpointId lin = lk \<and> distinct (map (String_toLowerCase P) lk)
      \<and> vis = String_toLowerCase P ` set lk)"

text \<open>The depth at which a finite \<open>maxDepth\<close> stops the loop: the least natural number
  not below it.\<close>

definition depth_bound :: "rat \<Rightarrow> nat" where
  "depth_bound q = nat \<lceil>q\<rceil>"

section \<open>Client: consume\<close>

record StorageProvider =
  upload :: "bytes \<Rightarrow> string + string"
  download :: "string \<Rightarrow> string + bytes"

text \<open>
  The client's view of the chain. \<open>signer\<close> is \<open>None\<close> when the client was configured
  without one, otherwise the outcome of \<open>getAddress\<close>. The other fields are the
  contract's operations, each resolving or rejecting.
\<close>

record MindstateClient =
  signer :: "(string + string) option"
  hasRedeemed :: "string \<Rightarrow> string \<Rightarrow> string \<Rightarrow> string + bool"
  redeem :: "string \<Rightarrow> string \<Rightarrow> string + unit"
  getCheckpoint :: contract

record ConsumeOptions =
  keyDelivery :: KeyDeliveryProvider
  encryptionKeyPair :: KeyPair
  storage :: StorageProvider

text \<open>The calls that \<open>consume\<close> makes on its collaborators, in the order it makes them.\<close>

datatype call =
    GetAddress
  | HasRedeemed string string string
  | FetchEnvelope string string string
  | Redeem string string
  | GetCheckpoint string string
  | Download string

definition consume_rest ::
  "lib \<Rightarrow> MindstateClient \<Rightarrow> string \<Rightarrow> string \<Rightarrow> ConsumeOptions \<Rightarrow> call list \<Rightarrow> KeyEnvelope
     \<Rightarrow> call list \<times> (error + jsval \<times> CheckpointRecord)" where
  "consume_rest L client tok cid opts calls keyEnvelope =
     (case getCheckpoint client tok cid of
        Inl m \<Rightarrow> (calls @ [GetCheckpoint tok cid], Inl (Thrown m))
      | Inr cp \<Rightarrow>
          (let checkpoint = parseCheckpointFromContract cid cp
           in (case download (storage opts) (ciphertextUri checkpoint) of
                 Inl m \<Rightarrow>
                   (calls @ [GetCheckpoint tok cid, Download (ciphertextUri checkpoint)],
                    Inl (Thrown m))
               | Inr ct \<Rightarrow>
                   (calls @ [GetCheckpoint tok cid, Download (ciphertextUri checkpoint)],
                    bindE (verifyCiphertextHash L ct (ciphertextHash checkpoint)) (\<lambda>_.
                    bindE (unwrapKey L keyEnvelope (secretKey (encryptionKeyPair opts))) (\<lambda>contentKey.
                    bindE (decrypt L ct contentKey) (\<lambda>plaintext.
                    bindE (deserializeCapsule L plaintext) (\<lambda>capsule.
                    bindE (verifyStateCommitment L capsule (stateCommitment checkpoint)) (\<lambda>_.
                    Inr (capsule, checkpoint))))))))))"

definition consume ::
  "lib \<Rightarrow> MindstateClient \<Rightarrow> string \<Rightarrow> string \<Rightarrow> ConsumeOptions
     \<Rightarrow> call list \<times> (error + jsval \<times> CheckpointRecord)" where
  "consume L client tok cid opts =
     (case signer client of
        None \<Rightarrow> ([], Inl SignerRequired)
      | Some (Inl m) \<Rightarrow> ([GetAddress], Inl (Thrown m))
      | Some (Inr signerAddress) \<Rightarrow>
          if signerAddress = [] then ([GetAddress], Inl SignerRequired)
          else
            (case hasRedeemed client tok signerAddress cid of
               Inl m \<Rightarrow> ([GetAddress, HasRedeemed tok signerAddress cid], Inl (Thrown m))
             | Inr alreadyRedeemed \<Rightarrow>
                 if \<not> alreadyRedeemed then
                   (case fetchEnvelope (keyDelivery opts) tok cid signerAddress of
                      Inl _ \<Rightarrow>
                        ([GetAddress, HasRedeemed tok signerAddress cid,
                          FetchEnvelope tok cid signerAddress], Inl EnvelopeNotYetAvailable)
                    | Inr keyEnvelope \<Rightarrow>
                        (case redeem client tok cid of
                           Inl m \<Rightarrow>
                             ([GetAddress, HasRedeemed tok signerAddress cid,
                               FetchEnvelope tok cid signerAddress, Redeem tok cid],
                              Inl (Thrown m))
                         | Inr _ \<Rightarrow>
                             consume_rest L client tok cid opts
                               [GetAddress, HasRedeemed tok signerAddress cid,
                                FetchEnvelope tok cid signerAddress, Redeem tok cid]
                               keyEnvelope))
                 else
                   (case fetchEnvelope (keyDelivery opts) tok cid signerAddress of
                      Inl m \<Rightarrow>
                        ([GetAddress, HasRedeemed tok signerAddress cid,
                          FetchEnvelope tok cid signerAddress], Inl (Thrown m))
                    | Inr keyEnvelope \<Rightarrow>
                        consume_rest L client tok cid opts
                          [GetAddress, HasRedeemed tok signerAddress cid,
                           FetchEnvelope tok cid signerAddress]
                          keyEnvelope)))"


section \<open>What is assumed of the libraries\<close>

text \<open>
  The cipher is correct when, under a 32-byte key and a 12-byte nonce, encryption
  produces a 16-byte tag and decryption of its output gives the plaintext back. A value
  is JSON-representable when \<open>canonicalize\<close> gives it a text and \<open>JSON.parse\<close> of that
  text is the value again; it is canonicalizable when \<open>canonicalize\<close> gives it a text.
\<close>

definition gcm_correct :: "lib \<Rightarrow> bool" where
  "gcm_correct L =
     (\<forall>key iv pt. length key = KEY_LENGTH \<and> length iv = IV_LENGTH \<longrightarrow>
        (case aes_gcm_encrypt L key iv pt of
           (encrypted, authTag) \<Rightarrow>
             length authTag = AUTH_TAG_LENGTH
             \<and> aes_gcm_decrypt L key iv authTag encrypted = Inr pt))"

definition canonicalizable :: "lib \<Rightarrow> jsval \<Rightarrow> bool" where
  "canonicalizable L v = (case canonicalize L v of Inr (Some s) \<Rightarrow> True | _ \<Rightarrow> False)"

definition json_representable :: "lib \<Rightarrow> jsval \<Rightarrow> bool" where
  "json_representable L v =
     (case canonicalize L v of Inr (Some s) \<Rightarrow> JSON_parse L s = Inr v | _ \<Rightarrow> False)"

section \<open>Worked examples\<close>

text \<open>Concrete records and a concrete instance of the library interface, on which the
  operations are run.\<close>

definition checkpoint_of :: "string \<Rightarrow> string \<Rightarrow> CheckpointRecord" where
  "checkpoint_of cid pred =
     \<lparr>checkpointId = cid, predecessorId = pred, stateCommitment = [], ciphertextHash = [],
      ciphertextUri = [], manifestHash = [], publishedAt = 1, blockNumber = 1\<rparr>"

text \<open>
  The example capsule and envelopes, with their JSON texts. The envelope is the one of the
  repository's round-trip test; \<open>unchecked_envelope_text\<close> differs from its text in the
  \<open>wrappedKey\<close>, which is not hexadecimal; \<open>fresh_envelope\<close> is an envelope as
  \<open>wrapKey\<close> returns it, its \<open>checkpointId\<close> still empty.
\<close>

definition example_capsule :: jsval where
  "example_capsule =
     JObj (fmap_of_list [(''version'', JStr ''1.0.0''), (''payload'', JObj (fmap_of_list []))])"

definition example_capsule_text :: string where
  "example_capsule_text = ''{\"payload\":{},\"version\":\"1.0.0\"}''"

definition example_envelope :: KeyEnvelope where
  "example_envelope =
     \<lparr>checkpointId_e = ''0xabc123'', wrappedKey = [1, 2, 3, 4], nonce = [5, 6, 7, 8],
      senderPublicKey = [9, 10, 11, 12]\<rparr>"

definition example_envelope_text :: string where
  "example_envelope_text =
     ''{\"checkpointId\":\"0xabc123\",\"wrappedKey\":\"0x01020304\",''
       @ ''\"nonce\":\"0x05060708\",\"senderPublicKey\":\"0x090a0b0c\"}''"

definition unchecked_envelope_text :: string where
  "unchecked_envelope_text =
     ''{\"checkpointId\":\"0xabc123\",\"wrappedKey\":\"zz\",''
       @ ''\"nonce\":\"0x05060708\",\"senderPublicKey\":\"0x090a0b0c\"}''"

definition unchecked_envelope_json :: jsval where
  "unchecked_envelope_json =
     JObj (fmap_of_list
       [(''checkpointId'', JStr ''0xabc123''), (''wrappedKey'', JStr ''zz''),
        (''nonce'', JStr ''0x05060708''), (''senderPublicKey'', JStr ''0x090a0b0c'')])"

definition fresh_envelope :: KeyEnvelope where
  "fresh_envelope =
     \<lparr>checkpointId_e = [], wrappedKey = [1, 2, 3, 4], nonce = [5, 6, 7, 8],
      senderPublicKey = [9, 10, 11, 12]\<rparr>"

definition fresh_envelope_text :: string where
  "fresh_envelope_text =
     ''{\"checkpointId\":\"\",\"wrappedKey\":\"0x01020304\",''
       @ ''\"nonce\":\"0x05060708\",\"senderPublicKey\":\"0x090a0b0c\"}''"

text \<open>
  An instance of the library interface. The JSON functions are the real ones restricted
  to the example values: each equation is what the real library returns there, and
  a text outside the table is taken as not parseable. The hash and the two ciphers are
  small stand-ins with the interface of the real ones: a 32-byte digest, a 16-byte tag
  that decryption checks, a box that opens to what was boxed.
\<close>

definition example_keccak_256 :: "bytes \<Rightarrow> bytes" where
  "example_keccak_256 d = take 32 (d @ replicate 32 0)"

definition example_canonicalize :: "jsval \<Rightarrow> string + string option" where
  "example_canonicalize v =
     (if v = example_capsule then Inr (Some example_capsule_text)
      else if v = JNull then Inr (Some ''null'')
      else if v = JObj (fmap_of_list []) then Inr (Some ''{}'')
      else Inr None)"

definition example_JSON_parse :: "string \<Rightarrow> string + jsval" where
  "example_JSON_parse s =
     (if s = example_capsule_text then Inr example_capsule
      else if s = example_envelope_text then Inr (envelope_json example_envelope)
      else if s = unchecked_envelope_text then Inr unchecked_envelope_json
      else if s = fresh_envelope_text then Inr (envelope_json fresh_envelope)
      else if s = ''null'' then Inr JNull
      else Inl ''Unexpected token'')"

definition example_JSON_stringify :: "jsval \<Rightarrow> string" where
  "example_JSON_stringify v =
     (if v = envelope_json example_envelope then example_envelope_text
      else if v = envelope_json fresh_envelope then fresh_envelope_text
      else if v = example_capsule then example_capsule_text
      else ''null'')"

definition example_tag :: bytes where
  "example_tag = replicate 16 0x2a"

definition example_aes_gcm_encrypt :: "bytes \<Rightarrow> bytes \<Rightarrow> bytes \<Rightarrow> bytes \<times> bytes" where
  "example_aes_gcm_encrypt key iv plaintext = (plaintext, example_tag)"

definition example_aes_gcm_decrypt :: "bytes \<Rightarrow> bytes \<Rightarrow> bytes \<Rightarrow> bytes \<Rightarrow> string + bytes" where
  "example_aes_gcm_decrypt key iv authTag ct =
     (if authTag = example_tag then Inr ct
      else Inl ''Unsupported state or unable to authenticate data'')"

definition example_fromSecretKey :: "bytes \<Rightarrow> string + bytes" where
  "example_fromSecretKey sk = (if length sk = 32 then Inr (rev sk) else Inl ''bad secret key size'')"

definition example_box :: "bytes \<Rightarrow> bytes \<Rightarrow> bytes \<Rightarrow> bytes \<Rightarrow> string + bytes option" where
  "example_box msg n pk sk =
     (if length pk \<noteq> 32 then Inl ''bad public key size''
      else if length sk \<noteq> 32 then Inl ''bad secret key size''
      else Inr (Some (replicate 16 0 @ msg)))"

definition example_box_open :: "bytes \<Rightarrow> bytes \<Rightarrow> bytes \<Rightarrow> bytes \<Rightarrow> string + bytes option" where
  "example_box_open boxed n pk sk =
     (if length pk \<noteq> 32 then Inl ''bad public key size''
      else if length sk \<noteq> 32 then Inl ''bad secret key size''
      else if length boxed < 16 then Inr None
      else Inr (Some (drop 16 boxed)))"

definition example_lib :: lib where
  "example_lib =
     \<lparr>keccak_256 = example_keccak_256, canonicalize = example_canonicalize,
      JSON_parse = example_JSON_parse, JSON_stringify = example_JSON_stringify,
      aes_gcm_encrypt = example_aes_gcm_encrypt, aes_gcm_decrypt = example_aes_gcm_decrypt,
      box_keyPair_fromSecretKey = example_fromSecretKey, nacl_box = example_box,
      nacl_box_open = example_box_open\<rparr>"

text \<open>
  A platform. Its \<open>toLowerCase\<close> maps the ASCII capitals and knows one word of Greek, in
  UTF-8: capital alpha, capital sigma becomes small alpha, final sigma, as in
  JavaScript, where a sigma at the end of a word takes its final form. Its decoder drops
  a leading byte order mark.
\<close>

definition capital_alpha_sigma :: string where
  "capital_alpha_sigma = [CHR 0xCE, CHR 0x91, CHR 0xCE, CHR 0xA3]"

definition small_alpha_sigma :: string where
  "small_alpha_sigma = [CHR 0xCE, CHR 0xB1, CHR 0xCF, CHR 0x83]"

definition small_alpha_final_sigma :: string where
  "small_alpha_final_sigma = [CHR 0xCE, CHR 0xB1, CHR 0xCF, CHR 0x82]"

definition example_toLowerCase :: "string \<Rightarrow> string" where
  "example_toLowerCase s =
     (if toLowerCase s = capital_alpha_sigma then small_alpha_final_sigma else toLowerCase s)"

definition example_decode :: "bytes \<Rightarrow> string" where
  "example_decode d = decode (if take 3 d = [0xEF, 0xBB, 0xBF] then drop 3 d else d)"

definition example_platform :: platform where
  "example_platform =
     \<lparr>String_toLowerCase = example_toLowerCase, TextDecoder_decode = example_decode\<rparr>"

definition example_rng :: rng where
  "example_rng i = of_nat i"

text \<open>A delivery provider that accepts every envelope and holds none, a publisher's key
  pair, a consumer's public key and a content key.\<close>

definition accepting_delivery :: KeyDeliveryProvider where
  "accepting_delivery =
     \<lparr>storeEnvelope = (\<lambda>_. Inr ()),
      fetchEnvelope = (\<lambda>_ _ _. Inl ''Mindstate: key envelope not found'')\<rparr>"

definition example_keyPair :: KeyPair where
  "example_keyPair = \<lparr>publicKey = rev (replicate 31 1 @ [2]), secretKey = replicate 31 1 @ [2]\<rparr>"

definition example_consumer_key :: bytes where
  "example_consumer_key = replicate 32 7"

definition example_content_key :: bytes where
  "example_content_key = replicate 32 9"

text \<open>Two record sources. The first never yields the zero sentinel: the predecessor of
  an identifier is the identifier with a digit appended. In the second, two checkpoints
  name each other, in different letter case.\<close>

definition contract_checkpoint :: "string \<Rightarrow> ContractCheckpoint" where
  "contract_checkpoint pred =
     \<lparr>predecessorId_c = pred, stateCommitment_c = [], ciphertextHash_c = [],
      ciphertextUri_c = [], manifestHash_c = [], publishedAt_c = 1, blockNumber_c = 1\<rparr>"

definition endless_contract :: contract where
  "endless_contract tok cid = Inr (contract_checkpoint (cid @ ''1''))"

definition cyclic_contract :: contract where
  "cyclic_contract tok cid =
     (if cid = ''0xA'' then Inr (contract_checkpoint ''0xb'')
      else if cid = ''0xb'' then Inr (contract_checkpoint ''0xa'')
      else Inl ''call revert exception'')"

text \<open>A state of a walk against the endless source that has visited only identifiers
  shorter than the current one, which is \<open>0x1\<close> followed by more.\<close>

definition endless_state :: "string \<Rightarrow> string set \<Rightarrow> bool" where
  "endless_state cur vis =
     (3 \<le> length cur \<and> cur ! 2 = CHR ''1'' \<and> (\<forall>v \<in> vis. length v < length cur))"

text \<open>A sealed example capsule, its key wrapped for a consumer, and the collaborators of
  a \<open>consume\<close> run: a client whose contract reports the given redemption status and
  holds the checkpoint of the sealed capsule, a storage that holds its ciphertext, and a
  delivery provider that holds the envelope.\<close>

definition example_sealed :: SealedCapsule where
  "example_sealed = fst (projr (seal example_lib example_rng example_capsule JUndefined))"

definition example_key_envelope :: KeyEnvelope where
  "example_key_envelope =
     (fst (projr (wrapKey example_lib example_rng (encryptionKey example_sealed)
                    example_consumer_key (secretKey example_keyPair))))
       \<lparr>checkpointId_e := ''0xcp1''\<rparr>"

definition delivering :: "KeyEnvelope \<Rightarrow> KeyDeliveryProvider" where
  "delivering env = \<lparr>storeEnvelope = (\<lambda>_. Inr ()), fetchEnvelope = (\<lambda>_ _ _. Inr env)\<rparr>"

definition example_client :: "bool \<Rightarrow> MindstateClient" where
  "example_client redeemed =
     \<lparr>signer = Some (Inr ''0xConsumer''),
      hasRedeemed = (\<lambda>_ _ _. Inr redeemed),
      redeem = (\<lambda>_ _. Inr ()),
      getCheckpoint = (\<lambda>_ _. Inr
        \<lparr>predecessorId_c = ZERO_BYTES32, stateCommitment_c = stateCommitment_s example_sealed,
         ciphertextHash_c = contentHash example_sealed, ciphertextUri_c = ''mock://0'',
         manifestHash_c = metadataHash example_sealed, publishedAt_c = 1, blockNumber_c = 1\<rparr>)\<rparr>"

definition example_storage :: StorageProvider where
  "example_storage =
     \<lparr>upload = (\<lambda>_. Inr ''mock://0''),
      download = (\<lambda>uri. if uri = ''mock://0'' then Inr (ciphertext example_sealed)
                          else Inl ''Not found'')\<rparr>"

definition example_options :: "KeyDeliveryProvider \<Rightarrow> ConsumeOptions" where
  "example_options kd =
     \<lparr>keyDelivery = kd,
      encryptionKeyPair = \<lparr>publicKey = example_consumer_key, secretKey = example_consumer_key\<rparr>,
      storage = example_storage\<rparr>"

section \<open>Properties\<close>

declare show_nat.simps [simp del]
declare lineage_walk.simps [code]

subsection \<open>Letter case\<close>

lemma of_char_lt: "(of_char c :: nat) < 256"
proof -
  have "(of_char c :: nat) = of_char c mod 256" by simp
  also have "\<dots> < 256" by (rule mod_less_divisor) simp
  finally show ?thesis .
qed

lemma of_char_lower:
  "(of_char (lower_char c) :: nat) =
     (if 65 \<le> (of_char c :: nat) \<and> (of_char c :: nat) \<le> 90 then of_char c + 32 else of_char c)"
  using of_char_lt [of c] by (simp add: lower_char_def Let_def)

lemma of_char_upper:
  "(of_char (upper_char c) :: nat) =
     (if 97 \<le> (of_char c :: nat) \<and> (of_char c :: nat) \<le> 122 then of_char c - 32 else of_char c)"
  using of_char_lt [of c] by (auto simp add: upper_char_def Let_def)

lemma lower_char_eq_iff: "lower_char a = lower_char b \<longleftrightarrow> same_letter a b"
proof -
  have l: "lower_char a = lower_char b \<longleftrightarrow> (of_char (lower_char a) :: nat) = of_char (lower_char b)"
    by simp
  have u1: "a = upper_char b \<longleftrightarrow> (of_char a :: nat) = of_char (upper_char b)" by simp
  have u2: "b = upper_char a \<longleftrightarrow> (of_char b :: nat) = of_char (upper_char a)" by simp
  have e: "a = b \<longleftrightarrow> (of_char a :: nat) = of_char b" by simp
  show ?thesis
    unfolding same_letter_def l u1 u2 e of_char_lower of_char_upper
    by (auto split: if_splits)
qed

lemma toLowerCase_eq_iff: "toLowerCase s = toLowerCase t \<longleftrightarrow> eq_ignoring_case s t"
proof (induction s arbitrary: t)
  case Nil
  then show ?case by (simp add: toLowerCase_def eq_ignoring_case_def)
next
  case (Cons a s)
  then show ?case
    by (cases t) (simp_all add: toLowerCase_def eq_ignoring_case_def lower_char_eq_iff)
qed

lemma lower_char_idem: "lower_char (lower_char c) = lower_char c"
proof -
  have "(of_char (lower_char (lower_char c)) :: nat) = of_char (lower_char c)"
    unfolding of_char_lower by auto
  then show ?thesis by simp
qed

lemma toLowerCase_idem: "toLowerCase (toLowerCase s) = toLowerCase s"
  by (simp add: toLowerCase_def lower_char_idem)

subsection \<open>Lineage of an ordered sequence\<close>






subsection \<open>Content encryption\<close>

lemma message_key_length_11:
  "message (InvalidKeyLength c n) ! 11 = (case c of Encryption \<Rightarrow> CHR ''e'' | Decryption \<Rightarrow> CHR ''d'')"
  by (cases c) simp_all

lemma message_too_short_11: "message (TooShort k) ! 11 = CHR ''s''"
  by simp

lemma message_auth_failed_11: "message (AuthenticationFailed m) ! 11 = CHR ''A''"
  by simp

lemma cipher_messages_distinct:
  "message (InvalidKeyLength c n) \<noteq> message (TooShort k)"
  "message (InvalidKeyLength c n) \<noteq> message (AuthenticationFailed m)"
  "message (TooShort k) \<noteq> message (AuthenticationFailed m)"
proof -
  have "message (InvalidKeyLength c n) ! 11 \<noteq> message (TooShort k) ! 11"
    unfolding message_key_length_11 message_too_short_11 by (cases c) simp_all
  then show "message (InvalidKeyLength c n) \<noteq> message (TooShort k)" by metis
  have "message (InvalidKeyLength c n) ! 11 \<noteq> message (AuthenticationFailed m) ! 11"
    unfolding message_key_length_11 message_auth_failed_11 by (cases c) simp_all
  then show "message (InvalidKeyLength c n) \<noteq> message (AuthenticationFailed m)" by metis
  have "message (TooShort k) ! 11 \<noteq> message (AuthenticationFailed m) ! 11"
    unfolding message_too_short_11 message_auth_failed_11 by simp
  then show "message (TooShort k) \<noteq> message (AuthenticationFailed m)" by metis
qed

text \<open>
  Claim C5. \<open>encrypt\<close> and \<open>decrypt\<close> fail with the invalid-key-length error whenever
  the key is not 32 bytes long. With a 32-byte key, \<open>decrypt\<close> fails with the too-short
  error whenever the sealed input has fewer than 28 bytes, and from 28 bytes on it hands
  nonce, tag and ciphertext to the cipher and fails with the authentication error when
  the cipher rejects them; an input of exactly 28 bytes is not too short. The three
  errors are three kinds, and their messages differ whatever values they carry.
\<close>

theorem cipher_error_kinds:
  "(length key \<noteq> 32 \<longrightarrow>
      encrypt L r plaintext key = Inl (InvalidKeyLength Encryption (length key))
      \<and> decrypt L sealed key = Inl (InvalidKeyLength Decryption (length key)))
   \<and> (length key = 32 \<and> length sealed < 28 \<longrightarrow>
        decrypt L sealed key = Inl (TooShort (length sealed)))
   \<and> (length key = 32 \<and> 28 \<le> length sealed \<longrightarrow>
        decrypt L sealed key =
          (case aes_gcm_decrypt L key (take 12 sealed) (drop (length sealed - 16) sealed)
                  (drop 12 (take (length sealed - 16) sealed)) of
             Inl m \<Rightarrow> Inl (AuthenticationFailed m)
           | Inr decrypted \<Rightarrow> Inr decrypted))
   \<and> (length key = 32 \<and> length sealed = 28 \<longrightarrow> (\<forall>n. decrypt L sealed key \<noteq> Inl (TooShort n)))
   \<and> message (InvalidKeyLength c n) \<noteq> message (TooShort k)
   \<and> message (InvalidKeyLength c n) \<noteq> message (AuthenticationFailed m)
   \<and> message (TooShort k) \<noteq> message (AuthenticationFailed m)"
proof (intro conjI impI allI)
  assume "length key \<noteq> 32"
  then show "encrypt L r plaintext key = Inl (InvalidKeyLength Encryption (length key))"
    by (simp add: encrypt_def KEY_LENGTH_def)
next
  assume "length key \<noteq> 32"
  then show "decrypt L sealed key = Inl (InvalidKeyLength Decryption (length key))"
    by (simp add: decrypt_def KEY_LENGTH_def)
next
  assume "length key = 32 \<and> length sealed < 28"
  then show "decrypt L sealed key = Inl (TooShort (length sealed))"
    by (simp add: decrypt_def KEY_LENGTH_def IV_LENGTH_def AUTH_TAG_LENGTH_def)
next
  assume "length key = 32 \<and> 28 \<le> length sealed"
  then show "decrypt L sealed key =
          (case aes_gcm_decrypt L key (take 12 sealed) (drop (length sealed - 16) sealed)
                  (drop 12 (take (length sealed - 16) sealed)) of
             Inl m \<Rightarrow> Inl (AuthenticationFailed m)
           | Inr decrypted \<Rightarrow> Inr decrypted)"
    by (simp add: decrypt_def KEY_LENGTH_def IV_LENGTH_def AUTH_TAG_LENGTH_def slice_def Let_def)
next
  fix n'
  assume "length key = 32 \<and> length sealed = 28"
  then show "decrypt L sealed key \<noteq> Inl (TooShort n')"
    by (simp add: decrypt_def KEY_LENGTH_def IV_LENGTH_def AUTH_TAG_LENGTH_def slice_def Let_def
        split: sum.splits)
qed (rule cipher_messages_distinct)+

theorem cipher_error_kinds_witness:
  "encrypt example_lib example_rng [1, 2, 3] (replicate 16 0)
     = Inl (InvalidKeyLength Encryption 16)
   \<and> decrypt example_lib (replicate 30 0) (replicate 16 0) = Inl (InvalidKeyLength Decryption 16)
   \<and> decrypt example_lib (replicate 10 0) (replicate 32 0) = Inl (TooShort 10)
   \<and> decrypt example_lib (replicate 28 0) (replicate 32 0)
       = Inl (AuthenticationFailed ''Unsupported state or unable to authenticate data'')
   \<and> decrypt example_lib (replicate 12 0 @ example_tag) (replicate 32 0) = Inr []"
proof -
  have a: "decrypt example_lib (replicate 28 0) (replicate 32 0)
       = Inl (AuthenticationFailed ''Unsupported state or unable to authenticate data'')"
    by code_simp
  have b: "decrypt example_lib (replicate 12 0 @ example_tag) (replicate 32 0) = Inr []"
    by code_simp
  show ?thesis
    using cipher_error_kinds [of "replicate 16 0" example_lib example_rng "[1, 2, 3]" "replicate 30 0"]
      cipher_error_kinds [of "replicate 32 0" example_lib example_rng "[1, 2, 3]" "replicate 10 0"]
      cipher_error_kinds [of "replicate 32 0" example_lib example_rng "[1, 2, 3]" "replicate 28 0"]
      a b
    by simp
qed

subsection \<open>Hex digests\<close>

lemma hex_digit_lower: "d < 16 \<Longrightarrow> lower_char (hex_digit d) = hex_digit d"
proof -
  have "list_all (\<lambda>d. lower_char (hex_digit d) = hex_digit d) [0 ..< 16]"
    by code_simp
  then show "d < 16 \<Longrightarrow> lower_char (hex_digit d) = hex_digit d"
    by (simp add: list_all_iff)
qed

lemma hex_digit_in: "d < 16 \<Longrightarrow> hex_digit d \<in> set ''0123456789abcdef''"
  unfolding hex_digit_def by (rule nth_mem) simp

lemma unat_byte_div: "unat (b :: byte) div 16 < 16"
proof -
  have "unat b < 2 ^ 8" using unsigned_less [of b] by simp
  then show ?thesis by simp
qed

lemma hex_byte_lower: "map lower_char (hex_byte b) = hex_byte b"
  by (simp add: hex_byte_def hex_digit_lower unat_byte_div)

lemma hex_byte_in: "set (hex_byte b) \<subseteq> set ''0123456789abcdef''"
  using hex_digit_in [of "unat b div 16"] hex_digit_in [of "unat b mod 16"] unat_byte_div [of b]
  by (simp add: hex_byte_def)

lemma concat_hex_lower: "map lower_char (concat (map hex_byte bs)) = concat (map hex_byte bs)"
  by (induction bs) (simp_all add: hex_byte_lower)

lemma toHex_lower: "toLowerCase (toHex bs) = toHex bs"
proof -
  have "toLowerCase ''0x'' = ''0x''" by code_simp
  then show ?thesis
    using concat_hex_lower [of bs] by (simp add: toHex_def toLowerCase_def)
qed

lemma toHex_prefix: "take 2 (toHex bs) = ''0x''"
  by (simp add: toHex_def)

lemma toHex_digits: "set (drop 2 (toHex bs)) \<subseteq> set ''0123456789abcdef''"
proof -
  have "set (concat (map hex_byte bs)) \<subseteq> set ''0123456789abcdef''"
    using hex_byte_in by (induction bs) auto
  then show ?thesis by (simp add: toHex_def)
qed

lemma length_toHex: "length (toHex bs) = 2 + 2 * length bs"
  by (induction bs) (simp_all add: toHex_def hex_byte_def)

lemma toHex_not_empty: "toHex bs \<noteq> []"
  by (simp add: toHex_def)

lemma hex_digit_facts:
  "d < 16 \<Longrightarrow>
     hex_value (hex_digit d) = Some d \<and> \<not> is_space (hex_digit d)
     \<and> hex_digit d \<noteq> CHR ''-'' \<and> hex_digit d \<noteq> CHR ''+''
     \<and> hex_digit d \<noteq> CHR ''x'' \<and> hex_digit d \<noteq> CHR ''X''"
proof -
  have "list_all (\<lambda>d. hex_value (hex_digit d) = Some d \<and> \<not> is_space (hex_digit d)
          \<and> hex_digit d \<noteq> CHR ''-'' \<and> hex_digit d \<noteq> CHR ''+''
          \<and> hex_digit d \<noteq> CHR ''x'' \<and> hex_digit d \<noteq> CHR ''X'') [0 ..< 16]"
    by code_simp
  then show "d < 16 \<Longrightarrow>
     hex_value (hex_digit d) = Some d \<and> \<not> is_space (hex_digit d)
     \<and> hex_digit d \<noteq> CHR ''-'' \<and> hex_digit d \<noteq> CHR ''+''
     \<and> hex_digit d \<noteq> CHR ''x'' \<and> hex_digit d \<noteq> CHR ''X''"
    by (simp add: list_all_iff)
qed

lemma parseInt16_digits:
  assumes "h < 16" and "l < 16"
  shows "parseInt16 [hex_digit h, hex_digit l] = Some (int (h * 16 + l))"
  using hex_digit_facts [OF assms(1)] hex_digit_facts [OF assms(2)]
  by (simp add: parseInt16_def startsWith_def Let_def)

lemma toUint8_hex_byte: "toUint8 (parseInt16 (hex_byte b)) = b"
proof -
  have "unat b < 2 ^ 8" using unsigned_less [of b] by simp
  then have h: "unat b div 16 < 16" by simp
  have l: "unat b mod 16 < 16" by simp
  have "parseInt16 (hex_byte b) = Some (int (unat b div 16 * 16 + unat b mod 16))"
    unfolding hex_byte_def by (rule parseInt16_digits [OF h l])
  then show ?thesis by (simp add: toUint8_def)
qed

lemma slice_hex:
  "i < length bs \<Longrightarrow> slice (i * 2) (i * 2 + 2) (concat (map hex_byte bs)) = hex_byte (bs ! i)"
proof (induction bs arbitrary: i)
  case Nil
  then show ?case by simp
next
  case (Cons b bs)
  show ?case
  proof (cases i)
    case 0
    then show ?thesis by (simp add: slice_def hex_byte_def)
  next
    case (Suc j)
    with Cons.prems have "j < length bs" by simp
    from Cons.IH [OF this] show ?thesis
      unfolding Suc by (simp add: slice_def hex_byte_def)
  qed
qed

lemma length_concat_hex: "length (concat (map hex_byte bs)) = 2 * length bs"
  by (induction bs) (simp_all add: hex_byte_def)

lemma fromHex_toHex: "fromHex (toHex bs) = bs"
proof -
  have c: "(if startsWith (toHex bs) ''0x'' then drop 2 (toHex bs) else toHex bs)
      = concat (map hex_byte bs)"
    by (simp add: toHex_def startsWith_def)
  have "fromHex (toHex bs)
      = map (\<lambda>i. toUint8 (parseInt16 (slice (i * 2) (i * 2 + 2) (concat (map hex_byte bs)))))
          [0 ..< length bs]"
    unfolding fromHex_def c Let_def by (simp add: length_concat_hex)
  also have "\<dots> = map (\<lambda>i. bs ! i) [0 ..< length bs]"
  proof (rule map_cong)
    fix i assume "i \<in> set [0 ..< length bs]"
    then have "i < length bs" by simp
    then show "toUint8 (parseInt16 (slice (i * 2) (i * 2 + 2) (concat (map hex_byte bs)))) = bs ! i"
      by (simp only: slice_hex toUint8_hex_byte)
  qed simp
  also have "\<dots> = bs" by (rule map_nth)
  finally show ?thesis .
qed




lemma toHex_nth:
  "i < length bs \<Longrightarrow>
     toHex bs ! (2 + 2 * i) = hex_digit (unat (bs ! i) div 16)
     \<and> toHex bs ! (3 + 2 * i) = hex_digit (unat (bs ! i) mod 16)"
proof -
  assume i: "i < length bs"
  have s: "slice (i * 2) (i * 2 + 2) (concat (map hex_byte bs)) = hex_byte (bs ! i)"
    using i by (rule slice_hex)
  let ?c = "concat (map hex_byte bs)"
  have len: "i * 2 + 2 \<le> length ?c" using i by (simp add: length_concat_hex)
  have "hex_byte (bs ! i) ! 0 = ?c ! (i * 2)" "hex_byte (bs ! i) ! 1 = ?c ! (i * 2 + 1)"
    using len unfolding s [symmetric] slice_def by simp_all
  then have "?c ! (2 * i) = hex_digit (unat (bs ! i) div 16)"
    "?c ! (2 * i + 1) = hex_digit (unat (bs ! i) mod 16)"
    by (simp_all add: hex_byte_def mult.commute)
  moreover have "toHex bs ! (2 + 2 * i) = ?c ! (2 * i)" "toHex bs ! (3 + 2 * i) = ?c ! (2 * i + 1)"
    by (simp_all add: toHex_def nth_append numeral_3_eq_3)
  ultimately show ?thesis by simp
qed

lemma toHex_digit_values:
  "i < length bs \<Longrightarrow>
     hex_value (toHex bs ! (2 + 2 * i)) = Some (unat (bs ! i) div 16)
     \<and> hex_value (toHex bs ! (3 + 2 * i)) = Some (unat (bs ! i) mod 16)"
  using toHex_nth [of i bs] hex_digit_facts [of "unat (bs ! i) div 16"]
    hex_digit_facts [of "unat (bs ! i) mod 16"] unat_byte_div [of "bs ! i"]
  by simp

lemma example_toLowerCase_blind: "ascii_case_blind example_platform"
  by (simp add: ascii_case_blind_def example_platform_def example_toLowerCase_def
      toLowerCase_eq_iff [symmetric])

text \<open>
  Claim C6, as the code has it. \<open>computeEnvelopeId\<close> is the keccak256 digest of the UTF-8
  bytes of the three arguments, lower-cased by the platform and joined by colons,
  rendered as \<open>0x\<close> followed by two lower-case hexadecimal digits for every byte of the
  digest, the high four bits first: the digest is read back from the identifier. It is a
  function of its arguments, and of their lower-case forms only: arguments with the same
  lower-case forms have the same identifier. In particular the identifier does not change
  when ASCII letters of an argument change case, the platform's lower-casing being blind
  to that.
\<close>

theorem computeEnvelopeId_spec:
  "computeEnvelopeId L P t c a
     = toHex (keccak_256 L (encode (String_toLowerCase P t @ '':'' @ String_toLowerCase P c
                                      @ '':'' @ String_toLowerCase P a)))
   \<and> take 2 (computeEnvelopeId L P t c a) = ''0x''
   \<and> length (computeEnvelopeId L P t c a)
       = 2 + 2 * length (keccak_256 L (encode (String_toLowerCase P t @ '':''
                           @ String_toLowerCase P c @ '':'' @ String_toLowerCase P a)))
   \<and> set (drop 2 (computeEnvelopeId L P t c a)) \<subseteq> set ''0123456789abcdef''
   \<and> (\<forall>i < length (keccak_256 L (encode (String_toLowerCase P t @ '':''
                           @ String_toLowerCase P c @ '':'' @ String_toLowerCase P a))).
         hex_value (computeEnvelopeId L P t c a ! (2 + 2 * i))
           = Some (unat (keccak_256 L (encode (String_toLowerCase P t @ '':''
                           @ String_toLowerCase P c @ '':'' @ String_toLowerCase P a)) ! i) div 16)
         \<and> hex_value (computeEnvelopeId L P t c a ! (3 + 2 * i))
           = Some (unat (keccak_256 L (encode (String_toLowerCase P t @ '':''
                           @ String_toLowerCase P c @ '':'' @ String_toLowerCase P a)) ! i) mod 16))
   \<and> fromHex (computeEnvelopeId L P t c a)
       = keccak_256 L (encode (String_toLowerCase P t @ '':'' @ String_toLowerCase P c
                                 @ '':'' @ String_toLowerCase P a))
   \<and> toLowerCase (computeEnvelopeId L P t c a) = computeEnvelopeId L P t c a
   \<and> (String_toLowerCase P t' = String_toLowerCase P t
        \<and> String_toLowerCase P c' = String_toLowerCase P c
        \<and> String_toLowerCase P a' = String_toLowerCase P a \<longrightarrow>
        computeEnvelopeId L P t' c' a' = computeEnvelopeId L P t c a)
   \<and> (ascii_case_blind P
        \<and> eq_ignoring_case t t' \<and> eq_ignoring_case c c' \<and> eq_ignoring_case a a' \<longrightarrow>
        computeEnvelopeId L P t' c' a' = computeEnvelopeId L P t c a)"
proof -
  let ?digest = "keccak_256 L (encode (String_toLowerCase P t @ '':'' @ String_toLowerCase P c
                                 @ '':'' @ String_toLowerCase P a))"
  have id: "computeEnvelopeId L P t c a = toHex ?digest"
    by (simp add: computeEnvelopeId_def Let_def)
  have same: "String_toLowerCase P t' = String_toLowerCase P t
        \<and> String_toLowerCase P c' = String_toLowerCase P c
        \<and> String_toLowerCase P a' = String_toLowerCase P a \<longrightarrow>
        computeEnvelopeId L P t' c' a' = computeEnvelopeId L P t c a"
    by (simp add: computeEnvelopeId_def)
  have blind: "ascii_case_blind P
        \<and> eq_ignoring_case t t' \<and> eq_ignoring_case c c' \<and> eq_ignoring_case a a' \<longrightarrow>
        computeEnvelopeId L P t' c' a' = computeEnvelopeId L P t c a"
  proof
    assume h: "ascii_case_blind P
        \<and> eq_ignoring_case t t' \<and> eq_ignoring_case c c' \<and> eq_ignoring_case a a'"
    then have "String_toLowerCase P t = String_toLowerCase P t'"
      "String_toLowerCase P c = String_toLowerCase P c'"
      "String_toLowerCase P a = String_toLowerCase P a'"
      unfolding ascii_case_blind_def by blast+
    with same show "computeEnvelopeId L P t' c' a' = computeEnvelopeId L P t c a" by simp
  qed
  have digits: "\<forall>i < length ?digest.
         hex_value (toHex ?digest ! (2 + 2 * i)) = Some (unat (?digest ! i) div 16)
         \<and> hex_value (toHex ?digest ! (3 + 2 * i)) = Some (unat (?digest ! i) mod 16)"
    using toHex_digit_values [of _ ?digest] by blast
  show ?thesis
    unfolding id
    using same blind digits toHex_prefix [of ?digest] length_toHex [of ?digest]
      toHex_digits [of ?digest] fromHex_toHex [of ?digest] toHex_lower [of ?digest]
    unfolding id by (intro conjI) (rule refl, assumption+)
qed

text \<open>On the example platform and libraries, whose hash keeps the first 32 bytes of its
  input: the identifier of three arguments, digit by digit, and the same identifier for
  arguments that differ from them in ASCII letter case.\<close>

theorem computeEnvelopeId_spec_witness:
  "ascii_case_blind example_platform
   \<and> eq_ignoring_case ''0xABC'' ''0xabc'' \<and> eq_ignoring_case ''0xDEF'' ''0xdef''
   \<and> eq_ignoring_case ''0x123'' ''0x123''
   \<and> computeEnvelopeId example_lib example_platform ''0xabc'' ''0xdef'' ''0x123''
       = computeEnvelopeId example_lib example_platform ''0xABC'' ''0xDEF'' ''0x123''
   \<and> computeEnvelopeId example_lib example_platform ''0xABC'' ''0xDEF'' ''0x123''
       = ''0x30786162633a30786465663a3078313233000000000000000000000000000000''
   \<and> keccak_256 example_lib (encode ''0xabc:0xdef:0x123'') ! 1 = 0x78
   \<and> hex_value (computeEnvelopeId example_lib example_platform ''0xABC'' ''0xDEF'' ''0x123'' ! 4)
       = Some 7
   \<and> hex_value (computeEnvelopeId example_lib example_platform ''0xABC'' ''0xDEF'' ''0x123'' ! 5)
       = Some 8"
proof -
  have h: "eq_ignoring_case ''0xABC'' ''0xabc'' \<and> eq_ignoring_case ''0xDEF'' ''0xdef''
      \<and> eq_ignoring_case ''0x123'' ''0x123''"
    by code_simp
  have v: "computeEnvelopeId example_lib example_platform ''0xABC'' ''0xDEF'' ''0x123''
       = ''0x30786162633a30786465663a3078313233000000000000000000000000000000''"
    by code_simp
  have l: "String_toLowerCase example_platform ''0xABC'' @ '':''
       @ String_toLowerCase example_platform ''0xDEF'' @ '':''
       @ String_toLowerCase example_platform ''0x123'' = ''0xabc:0xdef:0x123''"
    by code_simp
  have k: "keccak_256 example_lib (encode ''0xabc:0xdef:0x123'') ! 1 = 0x78"
    "(1 :: nat) < length (keccak_256 example_lib (encode ''0xabc:0xdef:0x123''))"
    by code_simp+
  have u: "unat (0x78 :: byte) div 16 = 7" "unat (0x78 :: byte) mod 16 = 8" by simp_all
  from computeEnvelopeId_spec [of example_lib example_platform "''0xABC''" "''0xDEF''" "''0x123''"
          "''0xabc''" "''0xdef''" "''0x123''"]
  have "(\<forall>i < length (keccak_256 example_lib (encode ''0xabc:0xdef:0x123'')).
         hex_value (computeEnvelopeId example_lib example_platform ''0xABC'' ''0xDEF'' ''0x123''
                      ! (2 + 2 * i))
           = Some (unat (keccak_256 example_lib (encode ''0xabc:0xdef:0x123'') ! i) div 16)
         \<and> hex_value (computeEnvelopeId example_lib example_platform ''0xABC'' ''0xDEF'' ''0x123''
                      ! (3 + 2 * i))
           = Some (unat (keccak_256 example_lib (encode ''0xabc:0xdef:0x123'') ! i) mod 16))
     \<and> (ascii_case_blind example_platform
        \<and> eq_ignoring_case ''0xABC'' ''0xabc'' \<and> eq_ignoring_case ''0xDEF'' ''0xdef''
        \<and> eq_ignoring_case ''0x123'' ''0x123'' \<longrightarrow>
        computeEnvelopeId example_lib example_platform ''0xabc'' ''0xdef'' ''0x123''
          = computeEnvelopeId example_lib example_platform ''0xABC'' ''0xDEF'' ''0x123'')"
    unfolding l by (elim conjE) (intro conjI, assumption+)
  then have d: "hex_value (computeEnvelopeId example_lib example_platform ''0xABC'' ''0xDEF'' ''0x123''
                      ! (2 + 2 * 1))
           = Some (unat (keccak_256 example_lib (encode ''0xabc:0xdef:0x123'') ! 1) div 16)
         \<and> hex_value (computeEnvelopeId example_lib example_platform ''0xABC'' ''0xDEF'' ''0x123''
                      ! (3 + 2 * 1))
           = Some (unat (keccak_256 example_lib (encode ''0xabc:0xdef:0x123'') ! 1) mod 16)"
    and e: "computeEnvelopeId example_lib example_platform ''0xabc'' ''0xdef'' ''0x123''
          = computeEnvelopeId example_lib example_platform ''0xABC'' ''0xDEF'' ''0x123''"
    using k(2) h example_toLowerCase_blind by blast+
  from d have d': "hex_value (computeEnvelopeId example_lib example_platform ''0xABC'' ''0xDEF'' ''0x123'' ! 4)
       = Some 7"
    "hex_value (computeEnvelopeId example_lib example_platform ''0xABC'' ''0xDEF'' ''0x123'' ! 5)
       = Some 8"
    unfolding k(1) u by simp_all
  show ?thesis
    using example_toLowerCase_blind h e v k(1) d' by (intro conjI) (simp_all only:)
qed

text \<open>
  Claim C6, as stated, fails beyond ASCII: letter case is not only ASCII letter case, and
  lower-casing is not blind to every change of case. The words capital alpha, capital
  sigma and small alpha, small sigma differ in letter case only; the first is lower-cased
  to small alpha, final sigma, the second is in lower case already, and so the two have
  different identifiers.
\<close>

theorem computeEnvelopeId_depends_on_greek_case:
  "String_toLowerCase example_platform capital_alpha_sigma = small_alpha_final_sigma
   \<and> String_toLowerCase example_platform small_alpha_sigma = small_alpha_sigma
   \<and> computeEnvelopeId example_lib example_platform capital_alpha_sigma ''0xcp1'' ''0xc0ffee''
       \<noteq> computeEnvelopeId example_lib example_platform small_alpha_sigma ''0xcp1'' ''0xc0ffee''"
  by code_simp

text \<open>
  Claim C3. \<open>verifyCiphertextHash\<close> and \<open>verifyStateCommitment\<close> never return false.
  Each returns true exactly when the computed digest equals the expected one up to letter
  case, and otherwise throws the commitment-mismatch error, which carries the expected
  and the computed digest. (\<open>verifyStateCommitment\<close> computes its digest from the capsule;
  when the capsule cannot be serialized there is no digest, and that error is thrown.)
\<close>

theorem verify_commitment_never_false:
  "verifyCiphertextHash L ct expected =
     (if eq_ignoring_case (computeCiphertextHash L ct) expected then Inr True
      else Inl (CommitmentMismatch CiphertextHash expected (computeCiphertextHash L ct)))
   \<and> verifyCiphertextHash L ct expected \<noteq> Inr False
   \<and> verifyStateCommitment L capsule expected =
       (case computeStateCommitment L capsule of
          Inl e \<Rightarrow> Inl e
        | Inr computed \<Rightarrow>
            if eq_ignoring_case computed expected then Inr True
            else Inl (CommitmentMismatch StateCommitment expected computed))
   \<and> verifyStateCommitment L capsule expected \<noteq> Inr False"
  by (auto simp: verifyCiphertextHash_def verifyStateCommitment_def bindE_def Let_def
      toLowerCase_eq_iff split: sum.splits)

theorem verify_commitment_never_false_witness:
  "verifyCiphertextHash example_lib [1, 2, 3]
       ''0X0102030000000000000000000000000000000000000000000000000000000000'' = Inr True
   \<and> verifyCiphertextHash example_lib [1, 2, 3] ''0x01'' =
       Inl (CommitmentMismatch CiphertextHash ''0x01''
             ''0x0102030000000000000000000000000000000000000000000000000000000000'')
   \<and> verifyStateCommitment example_lib example_capsule ''0xff'' =
       Inl (CommitmentMismatch StateCommitment ''0xff''
             ''0x7b227061796c6f6164223a7b7d2c2276657273696f6e223a22312e302e30227d'')
   \<and> verifyStateCommitment example_lib example_capsule
       ''0x7B227061796C6F6164223A7B7D2C2276657273696F6E223A22312E302E30227D'' = Inr True"
proof -
  have c: "computeCiphertextHash example_lib [1, 2, 3]
      = ''0x0102030000000000000000000000000000000000000000000000000000000000''"
    by code_simp
  have s: "computeStateCommitment example_lib example_capsule
      = Inr ''0x7b227061796c6f6164223a7b7d2c2276657273696f6e223a22312e302e30227d''"
    by code_simp
  have e: "eq_ignoring_case ''0x0102030000000000000000000000000000000000000000000000000000000000''
      ''0X0102030000000000000000000000000000000000000000000000000000000000''"
    "\<not> eq_ignoring_case ''0x0102030000000000000000000000000000000000000000000000000000000000''
      ''0x01''"
    "\<not> eq_ignoring_case ''0x7b227061796c6f6164223a7b7d2c2276657273696f6e223a22312e302e30227d''
      ''0xff''"
    "eq_ignoring_case ''0x7b227061796c6f6164223a7b7d2c2276657273696f6e223a22312e302e30227d''
      ''0x7B227061796C6F6164223A7B7D2C2276657273696F6E223A22312E302E30227D''"
    by code_simp+
  show ?thesis
    using verify_commitment_never_false [of example_lib "[1, 2, 3]"
        "''0X0102030000000000000000000000000000000000000000000000000000000000''" example_capsule]
      verify_commitment_never_false [of example_lib "[1, 2, 3]" "''0x01''" example_capsule]
      verify_commitment_never_false [of example_lib "[1, 2, 3]" "''0xff''" example_capsule]
      verify_commitment_never_false [of example_lib "[1, 2, 3]"
        "''0x7B227061796C6F6164223A7B7D2C2276657273696F6E223A22312E302E30227D''" example_capsule]
    unfolding c s using e by simp
qed

subsection \<open>Key wrapping and the publisher's key managers\<close>

lemma wrapKey_Inr:
  "wrapKey L r contentKey recipientPublicKey senderSecretKey = Inr (env, r') \<Longrightarrow>
     checkpointId_e env = []
     \<and> box_keyPair_fromSecretKey L senderSecretKey = Inr (senderPublicKey env)
     \<and> nonce env = fst (randomBytes box_nonceLength r)
     \<and> nacl_box L contentKey (nonce env) recipientPublicKey senderSecretKey
         = Inr (Some (wrappedKey env))"
  by (auto simp: wrapKey_def Let_def split: prod.splits sum.splits option.splits)

lemma fulfillRedemption_Inr:
  "fulfillRedemption L r m tok cid consumer pk = Inr (params, r') \<Longrightarrow>
     \<exists>K env. map_of (keys m) (toLowerCase cid) = Some K
       \<and> wrapKey L r K pk (secretKey (keyPair m)) = Inr (env, r')
       \<and> params = \<lparr>tokenAddress = tok, checkpointId_p = cid, consumerAddress = consumer,
                    envelope = env\<lparr>checkpointId_e := cid\<rparr>\<rparr>"
  by (auto simp: fulfillRedemption_def Let_def bindE_def await_def
      split: prod.splits sum.splits option.splits if_splits)

lemma fulfillRedemption_oc_Inr:
  "fulfillRedemption_oc L r m tok cid consumer pk = Inr (params, r') \<Longrightarrow>
     \<exists>K env. map_of (keys_oc m) (toLowerCase cid) = Some K
       \<and> wrapKey L r K pk (secretKey (keyPair_oc m)) = Inr (env, r')
       \<and> params = \<lparr>tokenAddress = tok, checkpointId_p = cid, consumerAddress = consumer,
                    envelope = env\<lparr>checkpointId_e := cid\<rparr>\<rparr>"
  by (auto simp: fulfillRedemption_oc_def Let_def bindE_def await_def
      split: prod.splits sum.splits option.splits if_splits)

text \<open>
  Claim C10. Whenever \<open>wrapKey\<close> returns, the \<open>checkpointId\<close> of the envelope is the
  empty string and the sender public key in it is the one derived from the sender's
  secret key: \<open>wrapKey\<close> takes a content key, a recipient public key and a sender
  secret key, and nothing else. The identifier is written afterwards by the caller:
  the envelope that \<open>fulfillRedemption\<close> delivers, in either key manager, is the one
  \<open>wrapKey\<close> returned with its \<open>checkpointId\<close> overwritten by the checkpoint being
  fulfilled.
\<close>

theorem wrapKey_leaves_checkpointId_empty:
  "(wrapKey L r contentKey recipientPublicKey senderSecretKey = Inr (env, r') \<longrightarrow>
      checkpointId_e env = []
      \<and> box_keyPair_fromSecretKey L senderSecretKey = Inr (senderPublicKey env))
   \<and> (fulfillRedemption L r m tok cid consumer pk = Inr (params, r2) \<longrightarrow>
        (\<exists>K e. wrapKey L r K pk (secretKey (keyPair m)) = Inr (e, r2)
           \<and> checkpointId_e e = [] \<and> envelope params = e\<lparr>checkpointId_e := cid\<rparr>)
        \<and> checkpointId_e (envelope params) = cid)
   \<and> (fulfillRedemption_oc L r mo tok cid consumer pk = Inr (params', r3) \<longrightarrow>
        (\<exists>K e. wrapKey L r K pk (secretKey (keyPair_oc mo)) = Inr (e, r3)
           \<and> checkpointId_e e = [] \<and> envelope params' = e\<lparr>checkpointId_e := cid\<rparr>)
        \<and> checkpointId_e (envelope params') = cid)"
proof (intro conjI impI)
  assume "wrapKey L r contentKey recipientPublicKey senderSecretKey = Inr (env, r')"
  from wrapKey_Inr [OF this]
  show "checkpointId_e env = []"
    and "box_keyPair_fromSecretKey L senderSecretKey = Inr (senderPublicKey env)"
    by simp_all
next
  assume a: "fulfillRedemption L r m tok cid consumer pk = Inr (params, r2)"
  from fulfillRedemption_Inr [OF a] obtain K e where
    w: "wrapKey L r K pk (secretKey (keyPair m)) = Inr (e, r2)"
    and p: "params = \<lparr>tokenAddress = tok, checkpointId_p = cid, consumerAddress = consumer,
                    envelope = e\<lparr>checkpointId_e := cid\<rparr>\<rparr>"
    by blast
  from wrapKey_Inr [OF w] have "checkpointId_e e = []" by simp
  with w p show "\<exists>K e. wrapKey L r K pk (secretKey (keyPair m)) = Inr (e, r2)
           \<and> checkpointId_e e = [] \<and> envelope params = e\<lparr>checkpointId_e := cid\<rparr>"
    by auto
  from p show "checkpointId_e (envelope params) = cid" by simp
next
  assume a: "fulfillRedemption_oc L r mo tok cid consumer pk = Inr (params', r3)"
  from fulfillRedemption_oc_Inr [OF a] obtain K e where
    w: "wrapKey L r K pk (secretKey (keyPair_oc mo)) = Inr (e, r3)"
    and p: "params' = \<lparr>tokenAddress = tok, checkpointId_p = cid, consumerAddress = consumer,
                    envelope = e\<lparr>checkpointId_e := cid\<rparr>\<rparr>"
    by blast
  from wrapKey_Inr [OF w] have "checkpointId_e e = []" by simp
  with w p show "\<exists>K e. wrapKey L r K pk (secretKey (keyPair_oc mo)) = Inr (e, r3)
           \<and> checkpointId_e e = [] \<and> envelope params' = e\<lparr>checkpointId_e := cid\<rparr>"
    by auto
  from p show "checkpointId_e (envelope params') = cid" by simp
qed

theorem wrapKey_leaves_checkpointId_empty_witness:
  "(\<exists>env r'. wrapKey example_lib example_rng example_content_key example_consumer_key
                 (secretKey example_keyPair) = Inr (env, r')
       \<and> checkpointId_e env = []
       \<and> box_keyPair_fromSecretKey example_lib (secretKey example_keyPair)
           = Inr (senderPublicKey env))
   \<and> (\<exists>params r'. fulfillRedemption example_lib example_rng
                 (storeKey (newPublisherKeyManager example_keyPair accepting_delivery)
                    ''0xCP1'' example_content_key)
                 ''0xToken'' ''0xcp1'' ''0xConsumer'' example_consumer_key = Inr (params, r')
       \<and> checkpointId_e (envelope params) = ''0xcp1'')
   \<and> (\<exists>params r'. fulfillRedemption_oc example_lib example_rng
                 (storeKey_oc (newOnChainPublisherKeyManager example_keyPair accepting_delivery)
                    ''0xCP1'' example_content_key)
                 ''0xToken'' ''0xcp1'' ''0xConsumer'' example_consumer_key = Inr (params, r')
       \<and> checkpointId_e (envelope params) = ''0xcp1'')"
proof -
  let ?w = "wrapKey example_lib example_rng example_content_key example_consumer_key
              (secretKey example_keyPair)"
  let ?f = "fulfillRedemption example_lib example_rng
              (storeKey (newPublisherKeyManager example_keyPair accepting_delivery)
                 ''0xCP1'' example_content_key)
              ''0xToken'' ''0xcp1'' ''0xConsumer'' example_consumer_key"
  let ?g = "fulfillRedemption_oc example_lib example_rng
              (storeKey_oc (newOnChainPublisherKeyManager example_keyPair accepting_delivery)
                 ''0xCP1'' example_content_key)
              ''0xToken'' ''0xcp1'' ''0xConsumer'' example_consumer_key"
  have "isl ?w = False" by code_simp
  then obtain env r1 where w: "?w = Inr (env, r1)" by (cases ?w) auto
  have "isl ?f = False" by code_simp
  then obtain p2 r2 where f: "?f = Inr (p2, r2)" by (cases ?f) auto
  have "isl ?g = False" by code_simp
  then obtain p3 r3 where g: "?g = Inr (p3, r3)" by (cases ?g) auto
  show ?thesis
    using w f g
      wrapKey_leaves_checkpointId_empty [of example_lib example_rng example_content_key
        example_consumer_key "secretKey example_keyPair" env r1
        "storeKey (newPublisherKeyManager example_keyPair accepting_delivery)
           ''0xCP1'' example_content_key"
        "''0xToken''" "''0xcp1''" "''0xConsumer''" example_consumer_key p2 r2
        "storeKey_oc (newOnChainPublisherKeyManager example_keyPair accepting_delivery)
           ''0xCP1'' example_content_key" p3 r3]
    by simp
qed

lemma keys_normalized_update:
  "keys_normalized ks \<Longrightarrow> keys_normalized (AList.update (toLowerCase k) v ks)"
  by (simp add: keys_normalized_def AList.dom_update toLowerCase_idem)

lemma importKeys_Nil: "importKeys m [] = m"
  by (simp add: importKeys_def)

lemma importKeys_Cons:
  "importKeys m ((cid, hex) # es)
     = importKeys (m\<lparr>keys := AList.update (toLowerCase cid) (fromHex hex) (keys m)\<rparr>) es"
  by (simp add: importKeys_def)

lemma keys_normalized_importKeys:
  "keys_normalized (keys m) \<Longrightarrow> keys_normalized (keys (importKeys m es))"
proof (induction es arbitrary: m)
  case Nil
  then show ?case by (simp add: importKeys_Nil)
next
  case (Cons e es)
  obtain cid hex where e: "e = (cid, hex)" by (cases e)
  show ?case
    unfolding e importKeys_Cons
    by (rule Cons.IH) (simp add: keys_normalized_update Cons.prems)
qed

lemma importKeys_other_fields:
  "keyPair (importKeys m es) = keyPair m \<and> delivery (importKeys m es) = delivery m"
proof (induction es arbitrary: m)
  case Nil
  then show ?case by (simp add: importKeys_Nil)
next
  case (Cons e es)
  obtain cid hex where e: "e = (cid, hex)" by (cases e)
  show ?case unfolding e importKeys_Cons using Cons.IH by simp
qed

lemma hasKey_importKeys_mono: "hasKey m t \<Longrightarrow> hasKey (importKeys m es) t"
proof (induction es arbitrary: m)
  case Nil
  then show ?case by (simp add: importKeys_Nil)
next
  case (Cons e es)
  obtain cid hex where e: "e = (cid, hex)" by (cases e)
  show ?case
    unfolding e importKeys_Cons
    by (rule Cons.IH) (use Cons.prems in \<open>simp add: hasKey_def update_conv'\<close>)
qed

lemma hasKey_importKeys:
  "(s, hex) \<in> set es \<Longrightarrow> eq_ignoring_case s t \<Longrightarrow> hasKey (importKeys m es) t"
proof (induction es arbitrary: m)
  case Nil
  then show ?case by simp
next
  case (Cons e es)
  obtain cid h where e: "e = (cid, h)" by (cases e)
  show ?case
  proof (cases "(s, hex) = e")
    case True
    with e Cons.prems have "toLowerCase cid = toLowerCase t"
      by (simp add: toLowerCase_eq_iff)
    then have "hasKey (m\<lparr>keys := AList.update (toLowerCase cid) (fromHex h) (keys m)\<rparr>) t"
      by (simp add: hasKey_def update_conv')
    then show ?thesis unfolding e importKeys_Cons by (rule hasKey_importKeys_mono)
  next
    case False
    with Cons.prems have "(s, hex) \<in> set es" by auto
    then show ?thesis unfolding e importKeys_Cons using Cons.prems by (intro Cons.IH)
  qed
qed


text \<open>
  Claim C9. Both key managers store a content key under the identifier in lower case.
  After \<open>storeKey s K\<close>, for every identifier \<open>t\<close> that equals \<open>s\<close> up to letter
  case, \<open>hasKey t\<close> is true and \<open>fulfillRedemption\<close> for \<open>t\<close>, given a 32-byte
  consumer key, wraps exactly \<open>K\<close> and hands the envelope to the delivery provider. In
  every state \<open>hasKey\<close> gives the same answer for identifiers equal up to letter case.
  The keys of the map are in lower case in a new manager, and \<open>storeKey\<close> and
  \<open>importKeys\<close>, the operations that write the map, keep them so; an imported entry is
  found under every spelling of its identifier.
\<close>

theorem key_lookup_ignores_case:
  "(eq_ignoring_case s t \<longrightarrow>
      hasKey (storeKey m s K) t
      \<and> (length pk = 32 \<longrightarrow>
           fulfillRedemption L r (storeKey m s K) tok t consumer pk =
             bindE (wrapKey L r K pk (secretKey (keyPair m))) (\<lambda>(env, r').
               bindE (await (storeEnvelope (delivery m)
                        \<lparr>tokenAddress = tok, checkpointId_p = t, consumerAddress = consumer,
                         envelope = env\<lparr>checkpointId_e := t\<rparr>\<rparr>)) (\<lambda>_.
               Inr (\<lparr>tokenAddress = tok, checkpointId_p = t, consumerAddress = consumer,
                     envelope = env\<lparr>checkpointId_e := t\<rparr>\<rparr>, r'))))
      \<and> hasKey_oc (storeKey_oc mo s K) t
      \<and> (length pk = 32 \<longrightarrow>
           fulfillRedemption_oc L r (storeKey_oc mo s K) tok t consumer pk =
             bindE (wrapKey L r K pk (secretKey (keyPair_oc mo))) (\<lambda>(env, r').
               bindE (await (storeEnvelope (delivery_oc mo)
                        \<lparr>tokenAddress = tok, checkpointId_p = t, consumerAddress = consumer,
                         envelope = env\<lparr>checkpointId_e := t\<rparr>\<rparr>)) (\<lambda>_.
               Inr (\<lparr>tokenAddress = tok, checkpointId_p = t, consumerAddress = consumer,
                     envelope = env\<lparr>checkpointId_e := t\<rparr>\<rparr>, r'))))
      \<and> hasKey m s = hasKey m t \<and> hasKey_oc mo s = hasKey_oc mo t)
   \<and> keys_normalized (keys (newPublisherKeyManager kp d))
   \<and> keys_normalized (keys_oc (newOnChainPublisherKeyManager kp d))
   \<and> (keys_normalized (keys m) \<longrightarrow>
        keys_normalized (keys (storeKey m s K)) \<and> keys_normalized (keys (importKeys m es)))
   \<and> (keys_normalized (keys_oc mo) \<longrightarrow> keys_normalized (keys_oc (storeKey_oc mo s K)))
   \<and> ((s, hex) \<in> set es \<and> eq_ignoring_case s t \<longrightarrow> hasKey (importKeys m es) t)"
proof (intro conjI impI)
  assume e: "eq_ignoring_case s t"
  then have l: "toLowerCase s = toLowerCase t" by (simp add: toLowerCase_eq_iff)
  show "hasKey (storeKey m s K) t"
    by (simp add: hasKey_def storeKey_def update_conv' l)
  show "hasKey_oc (storeKey_oc mo s K) t"
    by (simp add: hasKey_oc_def storeKey_oc_def update_conv' l)
  show "hasKey m s = hasKey m t" by (simp add: hasKey_def l)
  show "hasKey_oc mo s = hasKey_oc mo t" by (simp add: hasKey_oc_def l)
  assume k: "length pk = 32"
  show "fulfillRedemption L r (storeKey m s K) tok t consumer pk =
             bindE (wrapKey L r K pk (secretKey (keyPair m))) (\<lambda>(env, r').
               bindE (await (storeEnvelope (delivery m)
                        \<lparr>tokenAddress = tok, checkpointId_p = t, consumerAddress = consumer,
                         envelope = env\<lparr>checkpointId_e := t\<rparr>\<rparr>)) (\<lambda>_.
               Inr (\<lparr>tokenAddress = tok, checkpointId_p = t, consumerAddress = consumer,
                     envelope = env\<lparr>checkpointId_e := t\<rparr>\<rparr>, r')))"
    by (simp add: fulfillRedemption_def storeKey_def update_conv' l k Let_def)
  show "fulfillRedemption_oc L r (storeKey_oc mo s K) tok t consumer pk =
             bindE (wrapKey L r K pk (secretKey (keyPair_oc mo))) (\<lambda>(env, r').
               bindE (await (storeEnvelope (delivery_oc mo)
                        \<lparr>tokenAddress = tok, checkpointId_p = t, consumerAddress = consumer,
                         envelope = env\<lparr>checkpointId_e := t\<rparr>\<rparr>)) (\<lambda>_.
               Inr (\<lparr>tokenAddress = tok, checkpointId_p = t, consumerAddress = consumer,
                     envelope = env\<lparr>checkpointId_e := t\<rparr>\<rparr>, r')))"
    by (simp add: fulfillRedemption_oc_def storeKey_oc_def update_conv' l k Let_def)
next
  show "keys_normalized (keys (newPublisherKeyManager kp d))"
    by (simp add: newPublisherKeyManager_def keys_normalized_def)
  show "keys_normalized (keys_oc (newOnChainPublisherKeyManager kp d))"
    by (simp add: newOnChainPublisherKeyManager_def keys_normalized_def)
next
  assume n: "keys_normalized (keys m)"
  then show "keys_normalized (keys (storeKey m s K))"
    by (simp add: storeKey_def keys_normalized_update)
  from n show "keys_normalized (keys (importKeys m es))"
    by (rule keys_normalized_importKeys)
next
  assume "keys_normalized (keys_oc mo)"
  then show "keys_normalized (keys_oc (storeKey_oc mo s K))"
    by (simp add: storeKey_oc_def keys_normalized_update)
next
  assume "(s, hex) \<in> set es \<and> eq_ignoring_case s t"
  then show "hasKey (importKeys m es) t"
    using hasKey_importKeys by blast
qed

theorem key_lookup_ignores_case_witness:
  "eq_ignoring_case ''0xCP1'' ''0xcp1''
   \<and> hasKey (storeKey (newPublisherKeyManager example_keyPair accepting_delivery)
               ''0xCP1'' example_content_key) ''0xcp1''
   \<and> hasKey_oc (storeKey_oc (newOnChainPublisherKeyManager example_keyPair accepting_delivery)
               ''0xCP1'' example_content_key) ''0xcp1''
   \<and> map_sum id fst
        (fulfillRedemption example_lib example_rng
          (storeKey (newPublisherKeyManager example_keyPair accepting_delivery)
             ''0xCP1'' example_content_key)
          ''0xToken'' ''0xcp1'' ''0xConsumer'' example_consumer_key)
       = map_sum id (\<lambda>(env, r'). \<lparr>tokenAddress = ''0xToken'', checkpointId_p = ''0xcp1'',
                      consumerAddress = ''0xConsumer'', envelope = env\<lparr>checkpointId_e := ''0xcp1''\<rparr>\<rparr>)
           (wrapKey example_lib example_rng example_content_key example_consumer_key
              (secretKey example_keyPair))
   \<and> keys_normalized (keys (importKeys (newPublisherKeyManager example_keyPair accepting_delivery)
                               [(''0xCP1'', ''0x0102'')]))
   \<and> hasKey (importKeys (newPublisherKeyManager example_keyPair accepting_delivery)
               [(''0xCP1'', ''0x0102'')]) ''0xcp1''"
proof -
  let ?m = "newPublisherKeyManager example_keyPair accepting_delivery"
  let ?mo = "newOnChainPublisherKeyManager example_keyPair accepting_delivery"
  have e: "eq_ignoring_case ''0xCP1'' ''0xcp1''" by code_simp
  have k: "length example_consumer_key = 32" by code_simp
  have n: "keys_normalized (keys ?m)"
    by (simp add: newPublisherKeyManager_def keys_normalized_def)
  have i: "(''0xCP1'', ''0x0102'') \<in> set [(''0xCP1'', ''0x0102'')]" by simp
  have w: "isl (wrapKey example_lib example_rng example_content_key example_consumer_key
              (secretKey example_keyPair)) = False"
    by code_simp
  have d: "delivery ?m = accepting_delivery" "keyPair ?m = example_keyPair"
    by (simp_all add: newPublisherKeyManager_def)
  have a: "storeEnvelope accepting_delivery = (\<lambda>_. Inr ())"
    by (simp add: accepting_delivery_def)
  show ?thesis
    using e k n i w
      key_lookup_ignores_case [of "''0xCP1''" "''0xcp1''" ?m example_content_key
        example_consumer_key example_lib example_rng "''0xToken''" "''0xConsumer''" ?mo
        example_keyPair accepting_delivery "[(''0xCP1'', ''0x0102'')]" "''0x0102''"]
    by (auto simp: d a bindE_def await_def split: sum.splits)
qed

subsection \<open>The backward lineage walk\<close>

lemma less_num_Fin: "less_num n (Fin q) = (n < depth_bound q)"
proof -
  have "(of_nat n < q) = (int n < \<lceil>q\<rceil>)"
    by (simp add: less_ceiling_iff)
  also have "\<dots> = (n < nat \<lceil>q\<rceil>)" by linarith
  finally show ?thesis by (simp add: depth_bound_def)
qed

lemma depth_bound_of_nat: "depth_bound (of_nat d) = d"
  by (simp add: depth_bound_def)

lemma walk_cycle_step:
  "cur \<noteq> ZERO_BYTES32 \<Longrightarrow> less_num (length lin) d \<Longrightarrow> String_toLowerCase P cur \<in> vis \<Longrightarrow>
     lineage_walk P ct d cur lin vis lk = Some (lk, Inl (LineageCycle cur))"
  by (subst lineage_walk.simps) (simp add: Let_def)

lemma walk_stop:
  "cur = ZERO_BYTES32 \<or> \<not> less_num (length lin) d \<Longrightarrow>
     lineage_walk P ct d cur lin vis lk = Some (lk, Inr lin)"
  by (subst lineage_walk.simps) auto

lemma walk_finite:
  "walk_state P lin vis lk \<Longrightarrow>
     \<exists>tr res. lineage_walk P ct (Fin q) cur lin vis lk = Some (tr, res)
       \<and> length tr \<le> length lk + (depth_bound q - length lin)
       \<and> distinct (map (String_toLowerCase P) tr)
       \<and> (\<forall>recs. res = Inr recs \<longrightarrow>
             map checkpointId recs = tr \<and> length recs \<le> max (depth_bound q) (length lin)
             \<and> (length recs < depth_bound q \<longrightarrow>
                  (recs = lin \<and> cur = ZERO_BYTES32)
                  \<or> (recs \<noteq> [] \<and> predecessorId (last recs) = ZERO_BYTES32)))
       \<and> (\<forall>c. res = Inl (LineageCycle c) \<longrightarrow>
             String_toLowerCase P c \<in> String_toLowerCase P ` set tr)"
proof (induction "depth_bound q - length lin" arbitrary: cur lin vis lk rule: less_induct)
  case less
  note st = less.prems
  show ?case
  proof (cases "cur \<noteq> ZERO_BYTES32 \<and> length lin < depth_bound q")
    case False
    then have "cur = ZERO_BYTES32 \<or> \<not> less_num (length lin) (Fin q)"
      unfolding less_num_Fin by blast
    then have "lineage_walk P ct (Fin q) cur lin vis lk = Some (lk, Inr lin)"
      by (rule walk_stop)
    with st False show ?thesis by (auto simp: walk_state_def)
  next
    case go': True
    then have lt: "length lin < depth_bound q" by simp
    from go' have go: "cur \<noteq> ZERO_BYTES32 \<and> less_num (length lin) (Fin q)"
      unfolding less_num_Fin .
    show ?thesis
    proof (cases "String_toLowerCase P cur \<in> vis")
      case True
      with go have "lineage_walk P ct (Fin q) cur lin vis lk = Some (lk, Inl (LineageCycle cur))"
        by (intro walk_cycle_step) blast+
      with st True show ?thesis by (auto simp: walk_state_def)
    next
      case fresh: False
      show ?thesis
      proof (cases "ct cur")
        case (Inl m)
        with go fresh have "lineage_walk P ct (Fin q) cur lin vis lk
            = Some (lk @ [cur], Inl (Thrown m))"
          by (subst lineage_walk.simps) (simp add: Let_def del: less_num.simps)
        with st fresh lt show ?thesis by (auto simp: walk_state_def)
      next
        case (Inr cp)
        show ?thesis
        proof (cases "publishedAt_c cp = 0")
          case True
          with go fresh Inr have "lineage_walk P ct (Fin q) cur lin vis lk
              = Some (lk @ [cur], Inl (CheckpointNotFound cur))"
            by (subst lineage_walk.simps) (simp add: Let_def del: less_num.simps)
          with st fresh lt show ?thesis by (auto simp: walk_state_def)
        next
          case False
          let ?lin = "lin @ [parseCheckpointFromContract cur cp]"
          let ?vis = "insert (String_toLowerCase P cur) vis"
          let ?lk = "lk @ [cur]"
          have step: "lineage_walk P ct (Fin q) cur lin vis lk
              = lineage_walk P ct (Fin q) (predecessorId_c cp) ?lin ?vis ?lk"
            using go fresh Inr False
            by (subst lineage_walk.simps) (simp add: Let_def del: less_num.simps)
          have st': "walk_state P ?lin ?vis ?lk"
            using st fresh by (auto simp: walk_state_def parseCheckpointFromContract_def)
          have dec: "depth_bound q - length ?lin < depth_bound q - length lin"
            using lt by simp
          from less.hyps [OF dec st', of "predecessorId_c cp"]
          obtain tr res where
            run: "lineage_walk P ct (Fin q) (predecessorId_c cp) ?lin ?vis ?lk = Some (tr, res)"
            and len: "length tr \<le> length ?lk + (depth_bound q - length ?lin)"
            and dist: "distinct (map (String_toLowerCase P) tr)"
            and recs: "\<forall>recs. res = Inr recs \<longrightarrow>
                map checkpointId recs = tr \<and> length recs \<le> max (depth_bound q) (length ?lin)
                \<and> (length recs < depth_bound q \<longrightarrow>
                     (recs = ?lin \<and> predecessorId_c cp = ZERO_BYTES32)
                     \<or> (recs \<noteq> [] \<and> predecessorId (last recs) = ZERO_BYTES32))"
            and cyc: "\<forall>c. res = Inl (LineageCycle c) \<longrightarrow>
                String_toLowerCase P c \<in> String_toLowerCase P ` set tr"
            by blast
          have last: "predecessorId (last ?lin) = predecessorId_c cp"
            by (simp add: parseCheckpointFromContract_def)
          have len': "length tr \<le> length lk + (depth_bound q - length lin)"
            using len lt by simp
          have recs': "\<forall>recs. res = Inr recs \<longrightarrow>
                map checkpointId recs = tr \<and> length recs \<le> max (depth_bound q) (length lin)
                \<and> (length recs < depth_bound q \<longrightarrow>
                     (recs = lin \<and> cur = ZERO_BYTES32)
                     \<or> (recs \<noteq> [] \<and> predecessorId (last recs) = ZERO_BYTES32))"
          proof (intro allI impI conjI)
            fix recs assume r: "res = Inr recs"
            with recs show "map checkpointId recs = tr" by simp
            from r recs lt show "length recs \<le> max (depth_bound q) (length lin)" by auto
          next
            fix recs assume r: "res = Inr recs" and l: "length recs < depth_bound q"
            from r l recs have
              "(recs = ?lin \<and> predecessorId_c cp = ZERO_BYTES32)
               \<or> (recs \<noteq> [] \<and> predecessorId (last recs) = ZERO_BYTES32)"
              by blast
            then show "(recs = lin \<and> cur = ZERO_BYTES32)
               \<or> (recs \<noteq> [] \<and> predecessorId (last recs) = ZERO_BYTES32)"
              using last by auto
          qed
          from run len' dist recs' cyc show ?thesis unfolding step by blast
        qed
      qed
    qed
  qed
qed

text \<open>Against the endless source, whose records name as predecessor an identifier one
  character longer than their own, a walk with \<open>maxDepth = Infinity\<close> that has visited
  shorter identifiers only does not return.\<close>

lemma length_example_toLowerCase: "length (String_toLowerCase example_platform s) = length s"
proof (cases "toLowerCase s = capital_alpha_sigma")
  case True
  then have "length (toLowerCase s) = length capital_alpha_sigma" by simp
  then have "length s = 4" by (simp add: toLowerCase_def capital_alpha_sigma_def)
  with True show ?thesis
    by (simp add: example_platform_def example_toLowerCase_def small_alpha_final_sigma_def)
next
  case False
  then show ?thesis
    by (simp add: example_platform_def example_toLowerCase_def toLowerCase_def)
qed

lemma endless_walk_never_returns:
  assumes r: "lineage_walk example_platform (endless_contract tok) PosInfinity cur lin vis lk = Some y"
  shows "\<not> endless_state cur vis"
proof -
  let ?Q = "\<lambda>x (y :: string list \<times> (error + CheckpointRecord list)).
      case x of ((((((P, ct), d), cur), lin), vis), lk) \<Rightarrow>
        \<not> (P = example_platform \<and> ct = endless_contract tok \<and> d = PosInfinity
             \<and> endless_state cur vis)"
  have "?Q ((((((example_platform, endless_contract tok), PosInfinity), cur), lin), vis), lk) y"
  proof (rule lineage_walk.raw_induct [where Pa = ?Q, OF _ r], goal_cases)
    case (1 walk P ct d cur lin vis lk y)
    have "\<not> (P = example_platform \<and> ct = endless_contract tok \<and> d = PosInfinity
             \<and> endless_state cur vis)"
    proof
      assume a: "P = example_platform \<and> ct = endless_contract tok \<and> d = PosInfinity
              \<and> endless_state cur vis"
      have z: "ZERO_BYTES32 ! 2 = CHR ''0''" by code_simp
      from a have nz: "cur \<noteq> ZERO_BYTES32" using z by (auto simp: endless_state_def)
      from a have fresh: "String_toLowerCase P cur \<notin> vis"
        using length_example_toLowerCase [of cur] by (auto simp: endless_state_def)
      let ?cp = "contract_checkpoint (cur @ ''1'')"
      have st': "endless_state (cur @ ''1'') (insert (String_toLowerCase P cur) vis)"
        using a length_example_toLowerCase [of cur]
        by (auto simp: endless_state_def nth_append)
      have "walk P ct d (cur @ ''1'') (lin @ [parseCheckpointFromContract cur ?cp])
              (insert (String_toLowerCase P cur) vis) (lk @ [cur]) = Some y"
        using 1(2) a nz fresh
        by (simp add: Let_def endless_contract_def contract_checkpoint_def)
      from 1(1) [OF this] a st' show False by simp
    qed
    then show ?case by simp
  qed
  then show ?thesis by simp
qed

lemma endless_state_start: "endless_state ''0x1'' {}"
  by (simp add: endless_state_def)

text \<open>
  Claim C8, as the code has it. For every record source, every starting identifier and
  every finite \<open>maxDepth\<close>, \<open>getLineage\<close> returns, also against a source that never
  yields the zero sentinel. It looks up at most \<open>depth_bound maxDepth\<close> identifiers, the
  least natural number not below \<open>maxDepth\<close>, and returns at most that many records,
  those of the identifiers looked up; for a \<open>maxDepth\<close> that is a natural number \<open>d\<close> that
  is \<open>d\<close>, for the default 10000. It never looks up two identifiers with the same
  lower-case form, and a walk that returns fewer records than the bound has reached the
  zero sentinel. With \<open>maxDepth\<close> \<open>NaN\<close> or \<open>-Infinity\<close> it looks nothing up and returns
  the empty lineage. Whatever \<open>maxDepth\<close> is: when the loop, the length of the lineage
  still below \<open>maxDepth\<close>, takes up an identifier whose lower-case form is that of one
  looked up before, it raises the lineage-cycle error naming that identifier; when the
  length of the lineage is not below \<open>maxDepth\<close>, it returns the lineage and does not
  examine the identifier. A lineage-cycle error always names an identifier whose
  lower-case form is that of one looked up.
\<close>

theorem getLineage_bounded:
  "(\<exists>tr res. getLineage P ct tok cid (Fin q) = Some (tr, res)
      \<and> length tr \<le> depth_bound q
      \<and> distinct (map (String_toLowerCase P) tr)
      \<and> (\<forall>recs. res = Inr recs \<longrightarrow>
            length recs \<le> depth_bound q \<and> map checkpointId recs = tr
            \<and> (length recs < depth_bound q \<longrightarrow>
                 (recs = [] \<and> cid = ZERO_BYTES32)
                 \<or> (recs \<noteq> [] \<and> predecessorId (last recs) = ZERO_BYTES32)))
      \<and> (\<forall>c. res = Inl (LineageCycle c) \<longrightarrow>
            (\<exists>x \<in> set tr. String_toLowerCase P x = String_toLowerCase P c)))
   \<and> (\<exists>tr res. getLineage P ct tok cid (Fin (of_nat d)) = Some (tr, res)
         \<and> length tr \<le> d \<and> (\<forall>recs. res = Inr recs \<longrightarrow> length recs \<le> d))
   \<and> (\<exists>tr res. getLineage_default P ct tok cid = Some (tr, res)
         \<and> length tr \<le> 10000 \<and> (\<forall>recs. res = Inr recs \<longrightarrow> length recs \<le> 10000))
   \<and> getLineage P ct tok cid NaN = Some ([], Inr [])
   \<and> getLineage P ct tok cid NegInfinity = Some ([], Inr [])
   \<and> (cur \<noteq> ZERO_BYTES32 \<and> less_num (length lin) maxDepth
        \<and> (\<exists>x \<in> set lk. String_toLowerCase P x = String_toLowerCase P cur) \<longrightarrow>
        lineage_walk P (ct tok) maxDepth cur lin (String_toLowerCase P ` set lk) lk
          = Some (lk, Inl (LineageCycle cur)))
   \<and> (\<not> less_num (length lin) maxDepth \<longrightarrow>
        lineage_walk P (ct tok) maxDepth cur lin vis lk = Some (lk, Inr lin))"
proof -
  have st: "walk_state P [] {} []" by (simp add: walk_state_def)
  have fin: "\<exists>tr res. getLineage P ct tok cid (Fin q) = Some (tr, res)
      \<and> length tr \<le> depth_bound q
      \<and> distinct (map (String_toLowerCase P) tr)
      \<and> (\<forall>recs. res = Inr recs \<longrightarrow>
            length recs \<le> depth_bound q \<and> map checkpointId recs = tr
            \<and> (length recs < depth_bound q \<longrightarrow>
                 (recs = [] \<and> cid = ZERO_BYTES32)
                 \<or> (recs \<noteq> [] \<and> predecessorId (last recs) = ZERO_BYTES32)))
      \<and> (\<forall>c. res = Inl (LineageCycle c) \<longrightarrow>
            (\<exists>x \<in> set tr. String_toLowerCase P x = String_toLowerCase P c))" for q
  proof -
    from walk_finite [OF st, of "ct tok" q cid]
    obtain tr res where
      run: "lineage_walk P (ct tok) (Fin q) cid [] {} [] = Some (tr, res)"
      and len: "length tr \<le> length ([] :: string list) + (depth_bound q - length ([] :: CheckpointRecord list))"
      and dist: "distinct (map (String_toLowerCase P) tr)"
      and recs: "\<forall>recs. res = Inr recs \<longrightarrow>
            map checkpointId recs = tr
            \<and> length recs \<le> max (depth_bound q) (length ([] :: CheckpointRecord list))
            \<and> (length recs < depth_bound q \<longrightarrow>
                 (recs = [] \<and> cid = ZERO_BYTES32)
                 \<or> (recs \<noteq> [] \<and> predecessorId (last recs) = ZERO_BYTES32))"
      and cyc: "\<forall>c. res = Inl (LineageCycle c) \<longrightarrow>
            String_toLowerCase P c \<in> String_toLowerCase P ` set tr"
      by blast
    have g: "getLineage P ct tok cid (Fin q) = Some (tr, res)"
      by (simp add: getLineage_def run)
    from len have len': "length tr \<le> depth_bound q" by simp
    from recs have recs': "\<forall>recs. res = Inr recs \<longrightarrow>
            length recs \<le> depth_bound q \<and> map checkpointId recs = tr
            \<and> (length recs < depth_bound q \<longrightarrow>
                 (recs = [] \<and> cid = ZERO_BYTES32)
                 \<or> (recs \<noteq> [] \<and> predecessorId (last recs) = ZERO_BYTES32))"
      by simp
    from cyc have cyc': "\<forall>c. res = Inl (LineageCycle c) \<longrightarrow>
            (\<exists>x \<in> set tr. String_toLowerCase P x = String_toLowerCase P c)"
      by (metis imageE)
    from g len' dist recs' cyc' show ?thesis by blast
  qed
  have nat: "\<exists>tr res. getLineage P ct tok cid (Fin (of_nat d)) = Some (tr, res)
         \<and> length tr \<le> d \<and> (\<forall>recs. res = Inr recs \<longrightarrow> length recs \<le> d)" for d
    using fin [of "of_nat d"] unfolding depth_bound_of_nat by blast
  have dflt: "\<exists>tr res. getLineage_default P ct tok cid = Some (tr, res)
         \<and> length tr \<le> 10000 \<and> (\<forall>recs. res = Inr recs \<longrightarrow> length recs \<le> 10000)"
    using nat [of 10000] by (simp add: getLineage_default_def)
  have nan: "getLineage P ct tok cid NaN = Some ([], Inr [])"
    unfolding getLineage_def by (rule walk_stop) simp
  have neg: "getLineage P ct tok cid NegInfinity = Some ([], Inr [])"
    unfolding getLineage_def by (rule walk_stop) simp
  have cycle: "cur \<noteq> ZERO_BYTES32 \<and> less_num (length lin) maxDepth
        \<and> (\<exists>x \<in> set lk. String_toLowerCase P x = String_toLowerCase P cur) \<longrightarrow>
        lineage_walk P (ct tok) maxDepth cur lin (String_toLowerCase P ` set lk) lk
          = Some (lk, Inl (LineageCycle cur))"
  proof
    assume a: "cur \<noteq> ZERO_BYTES32 \<and> less_num (length lin) maxDepth
        \<and> (\<exists>x \<in> set lk. String_toLowerCase P x = String_toLowerCase P cur)"
    then have "String_toLowerCase P cur \<in> String_toLowerCase P ` set lk" by (metis imageI)
    with a show "lineage_walk P (ct tok) maxDepth cur lin (String_toLowerCase P ` set lk) lk
        = Some (lk, Inl (LineageCycle cur))"
      by (intro walk_cycle_step) blast+
  qed
  have stop: "\<not> less_num (length lin) maxDepth \<longrightarrow>
        lineage_walk P (ct tok) maxDepth cur lin vis lk = Some (lk, Inr lin)"
    by (intro impI walk_stop) blast
  from fin [of q] nat [of d] dflt nan neg cycle stop show ?thesis
    by (intro conjI)
qed

text \<open>On the example platform: the source with a cycle of two identifiers that differ
  from the starting one in letter case, walked to depth 10; one iteration of that walk;
  and the endless source walked to depth 3.\<close>

theorem getLineage_bounded_witness:
  "getLineage example_platform cyclic_contract ''0xToken'' ''0xA'' (Fin 10)
     = Some ([''0xA'', ''0xb''], Inl (LineageCycle ''0xa''))
   \<and> (\<exists>x \<in> set [''0xA'', ''0xb''].
         String_toLowerCase example_platform x = String_toLowerCase example_platform ''0xa'')
   \<and> lineage_walk example_platform (cyclic_contract ''0xToken'') (Fin 10) ''0xa''
         [checkpoint_of ''0xA'' ''0xb''] (String_toLowerCase example_platform ` set [''0xA''])
         [''0xA'']
       = Some ([''0xA''], Inl (LineageCycle ''0xa''))
   \<and> (\<exists>tr recs. getLineage example_platform endless_contract ''0xToken'' ''0x1'' (Fin 3)
                   = Some (tr, Inr recs)
         \<and> tr = [''0x1'', ''0x11'', ''0x111''] \<and> length tr \<le> 3 \<and> length recs \<le> 3)"
proof -
  have a: "getLineage example_platform cyclic_contract ''0xToken'' ''0xA'' (Fin 10)
      = Some ([''0xA'', ''0xb''], Inl (LineageCycle ''0xa''))"
    by code_simp
  have e: "String_toLowerCase example_platform ''0xA'' = String_toLowerCase example_platform ''0xa''"
    by code_simp
  have z: "''0xa'' \<noteq> ZERO_BYTES32" by code_simp
  have l: "less_num (length [checkpoint_of ''0xA'' ''0xb'']) (Fin 10)" by simp
  have f: "map_option (\<lambda>r. (fst r, isl (snd r)))
             (getLineage example_platform endless_contract ''0xToken'' ''0x1'' (Fin 3))
      = Some ([''0x1'', ''0x11'', ''0x111''], False)"
    by code_simp
  then obtain res where r: "getLineage example_platform endless_contract ''0xToken'' ''0x1'' (Fin 3)
      = Some ([''0x1'', ''0x11'', ''0x111''], res)" and "\<not> isl res"
    by auto
  then obtain recs where rr: "res = Inr recs" by (cases res) auto
  note cyc = getLineage_bounded [of example_platform cyclic_contract "''0xToken''" "''0xA''" 10
      10 "''0xa''" "[checkpoint_of ''0xA'' ''0xb'']" "Fin 10" "[''0xA'']"]
  note endl = getLineage_bounded [of example_platform endless_contract "''0xToken''" "''0x1''" 3 3]
  from cyc a have c1: "\<exists>x \<in> set [''0xA'', ''0xb''].
         String_toLowerCase example_platform x = String_toLowerCase example_platform ''0xa''"
    by auto
  from cyc z l e have c2: "lineage_walk example_platform (cyclic_contract ''0xToken'') (Fin 10) ''0xa''
         [checkpoint_of ''0xA'' ''0xb''] (String_toLowerCase example_platform ` set [''0xA''])
         [''0xA'']
       = Some ([''0xA''], Inl (LineageCycle ''0xa''))"
    by simp
  from endl r rr have c3: "length recs \<le> 3"
    by (auto simp: numeral_3_eq_3)
  from a c1 c2 r rr c3 show ?thesis by simp
qed

text \<open>
  Claim C8, as stated, fails. A \<open>maxDepth\<close> of 2.5 lets the walk look up three
  identifiers. With \<open>maxDepth = Infinity\<close> the walk against the endless source does not
  return. And at depth 2 the walk of the cycle returns its two records although the next
  identifier, \<open>0xa\<close>, has the lower-case form of the first one looked up: no
  lineage-cycle error is raised.
\<close>

theorem getLineage_depth_is_no_count:
  "map_option fst (getLineage example_platform endless_contract ''0xToken'' ''0x1'' (Fin (5 / 2)))
     = Some [''0x1'', ''0x11'', ''0x111'']
   \<and> getLineage example_platform endless_contract ''0xToken'' ''0x1'' PosInfinity = None
   \<and> getLineage example_platform cyclic_contract ''0xToken'' ''0xA'' (Fin 2)
       = Some ([''0xA'', ''0xb''], Inr [checkpoint_of ''0xA'' ''0xb'', checkpoint_of ''0xb'' ''0xa''])
   \<and> String_toLowerCase example_platform ''0xa'' = String_toLowerCase example_platform ''0xA''"
proof -
  have a: "map_option fst (getLineage example_platform endless_contract ''0xToken'' ''0x1'' (Fin (5 / 2)))
     = Some [''0x1'', ''0x11'', ''0x111'']"
    by code_simp
  have b: "getLineage example_platform endless_contract ''0xToken'' ''0x1'' PosInfinity = None"
  proof (cases "getLineage example_platform endless_contract ''0xToken'' ''0x1'' PosInfinity")
    case None
    then show ?thesis .
  next
    case (Some y)
    then have "lineage_walk example_platform (endless_contract ''0xToken'') PosInfinity ''0x1''
        [] {} [] = Some y"
      by (simp add: getLineage_def)
    from endless_walk_never_returns [OF this] endless_state_start show ?thesis by simp
  qed
  have c: "getLineage example_platform cyclic_contract ''0xToken'' ''0xA'' (Fin 2)
       = Some ([''0xA'', ''0xb''], Inr [checkpoint_of ''0xA'' ''0xb'', checkpoint_of ''0xb'' ''0xa''])"
    by code_simp
  have d: "String_toLowerCase example_platform ''0xa'' = String_toLowerCase example_platform ''0xA''"
    by code_simp
  from a b c d show ?thesis by (intro conjI)
qed

subsection \<open>The order of calls in consume\<close>

lemma consume_rest_calls:
  "\<exists>rest. fst (consume_rest L client tok cid opts calls env) = calls @ rest
      \<and> (\<forall>t c. Redeem t c \<notin> set rest)"
  by (auto simp: consume_rest_def Let_def split: sum.splits)

lemma redeem_position:
  assumes "calls = pre @ rest" and "\<forall>t c. Redeem t c \<notin> set rest"
    and "i < length calls" and "calls ! i = Redeem t c"
  shows "i < length pre \<and> pre ! i = Redeem t c"
proof (cases "i < length pre")
  case True
  with assms show ?thesis by (simp add: nth_append)
next
  case False
  with assms have "rest ! (i - length pre) = Redeem t c" "i - length pre < length rest"
    by (auto simp: nth_append)
  then have "Redeem t c \<in> set rest" by (metis nth_mem)
  with assms show ?thesis by blast
qed

lemma consume_redeem_at:
  assumes "i < length (fst (consume L client tok cid opts))"
    and "fst (consume L client tok cid opts) ! i = Redeem t c"
  shows "\<exists>a env. signer client = Some (Inr a) \<and> hasRedeemed client tok a cid = Inr False
            \<and> fetchEnvelope (keyDelivery opts) tok cid a = Inr env \<and> t = tok \<and> c = cid \<and> i = 3
            \<and> fst (consume L client tok cid opts) ! 2 = FetchEnvelope tok cid a"
proof (cases "signer client")
  case None
  with assms show ?thesis by (simp add: consume_def)
next
  case (Some ga)
  show ?thesis
  proof (cases ga)
    case (Inl m)
    with Some assms show ?thesis by (simp add: consume_def)
  next
    case (Inr a)
    show ?thesis
    proof (cases "a = []")
      case True
      with Some Inr assms show ?thesis by (simp add: consume_def)
    next
      case ne: False
      show ?thesis
      proof (cases "hasRedeemed client tok a cid")
        case (Inl m)
        with Some Inr ne assms show ?thesis
          by (auto simp: consume_def nth_Cons' split: if_splits)
      next
        case hr: (Inr redeemed)
        show ?thesis
        proof (cases "fetchEnvelope (keyDelivery opts) tok cid a")
          case (Inl m)
          with Some Inr ne hr assms show ?thesis
            by (cases redeemed) (auto simp: consume_def nth_Cons' split: if_splits)
        next
          case fe: (Inr env)
          show ?thesis
          proof (cases redeemed)
            case True
            let ?pre = "[GetAddress, HasRedeemed tok a cid, FetchEnvelope tok cid a]"
            have c: "consume L client tok cid opts = consume_rest L client tok cid opts ?pre env"
              using Some Inr ne hr fe True by (simp add: consume_def)
            obtain rest where r: "fst (consume_rest L client tok cid opts ?pre env) = ?pre @ rest"
              "\<forall>t c. Redeem t c \<notin> set rest"
              using consume_rest_calls by blast
            from redeem_position [OF r(1) r(2)] assms c
            have "i < length ?pre \<and> ?pre ! i = Redeem t c" by simp
            then show ?thesis by (auto simp: nth_Cons' split: if_splits)
          next
            case False
            let ?pre = "[GetAddress, HasRedeemed tok a cid, FetchEnvelope tok cid a, Redeem tok cid]"
            show ?thesis
            proof (cases "redeem client tok cid")
              case (Inl m)
              with Some Inr ne hr fe False assms show ?thesis
                by (auto simp: consume_def nth_Cons' split: if_splits)
            next
              case rd: (Inr u)
              have c: "consume L client tok cid opts = consume_rest L client tok cid opts ?pre env"
                using Some Inr ne hr fe False rd by (simp add: consume_def)
              obtain rest where r: "fst (consume_rest L client tok cid opts ?pre env) = ?pre @ rest"
                "\<forall>t c. Redeem t c \<notin> set rest"
                using consume_rest_calls by blast
              from redeem_position [OF r(1) r(2)] assms c
              have "i < length ?pre \<and> ?pre ! i = Redeem t c" by simp
              then have "i = 3 \<and> t = tok \<and> c = cid" by (auto simp: nth_Cons' split: if_splits)
              moreover have "fst (consume L client tok cid opts) ! 2 = FetchEnvelope tok cid a"
                unfolding c r(1) by simp
              ultimately show ?thesis using Some Inr hr fe False by simp
            qed
          qed
        qed
      qed
    qed
  qed
qed

text \<open>
  Claim C1. In \<open>consume\<close>, when \<open>hasRedeemed\<close> returns false and the pre-flight
  \<open>fetchEnvelope\<close> rejects, the run ends there with the envelope-not-yet-available
  error, and \<open>redeem\<close> has not been called. When \<open>hasRedeemed\<close> returns true,
  \<open>redeem\<close> is never called. In every run, a call of \<open>redeem\<close> is the fourth call,
  made right after a \<open>fetchEnvelope\<close> that returned an envelope, in a run where
  \<open>hasRedeemed\<close> returned false; so \<open>redeem\<close> is called at most once and only
  after the envelope was fetched.
\<close>

theorem consume_redeems_only_after_fetch:
  "(signer client = Some (Inr addr) \<and> addr \<noteq> [] \<and> hasRedeemed client tok addr cid = Inr False
      \<and> fetchEnvelope (keyDelivery opts) tok cid addr = Inl m \<longrightarrow>
        consume L client tok cid opts
          = ([GetAddress, HasRedeemed tok addr cid, FetchEnvelope tok cid addr],
             Inl EnvelopeNotYetAvailable))
   \<and> (signer client = Some (Inr addr) \<and> addr \<noteq> [] \<and> hasRedeemed client tok addr cid = Inr True \<longrightarrow>
        (\<forall>t c. Redeem t c \<notin> set (fst (consume L client tok cid opts))))
   \<and> (\<forall>i t c. i < length (fst (consume L client tok cid opts))
          \<and> fst (consume L client tok cid opts) ! i = Redeem t c \<longrightarrow>
        (\<exists>a env. signer client = Some (Inr a) \<and> hasRedeemed client tok a cid = Inr False
            \<and> fetchEnvelope (keyDelivery opts) tok cid a = Inr env \<and> t = tok \<and> c = cid \<and> i = 3
            \<and> fst (consume L client tok cid opts) ! 2 = FetchEnvelope tok cid a))"
proof (intro conjI impI allI)
  assume "signer client = Some (Inr addr) \<and> addr \<noteq> [] \<and> hasRedeemed client tok addr cid = Inr False
      \<and> fetchEnvelope (keyDelivery opts) tok cid addr = Inl m"
  then show "consume L client tok cid opts
          = ([GetAddress, HasRedeemed tok addr cid, FetchEnvelope tok cid addr],
             Inl EnvelopeNotYetAvailable)"
    by (simp add: consume_def)
next
  fix t c
  assume a: "signer client = Some (Inr addr) \<and> addr \<noteq> [] \<and> hasRedeemed client tok addr cid = Inr True"
  show "Redeem t c \<notin> set (fst (consume L client tok cid opts))"
  proof
    assume "Redeem t c \<in> set (fst (consume L client tok cid opts))"
    then obtain i where "i < length (fst (consume L client tok cid opts))"
      "fst (consume L client tok cid opts) ! i = Redeem t c"
      by (auto simp: in_set_conv_nth)
    from consume_redeem_at [OF this] a show False by auto
  qed
next
  fix i t c
  assume "i < length (fst (consume L client tok cid opts))
          \<and> fst (consume L client tok cid opts) ! i = Redeem t c"
  then show "\<exists>a env. signer client = Some (Inr a) \<and> hasRedeemed client tok a cid = Inr False
            \<and> fetchEnvelope (keyDelivery opts) tok cid a = Inr env \<and> t = tok \<and> c = cid \<and> i = 3
            \<and> fst (consume L client tok cid opts) ! 2 = FetchEnvelope tok cid a"
    using consume_redeem_at by blast
qed

theorem consume_redeems_only_after_fetch_witness:
  "consume example_lib (example_client False) ''0xToken'' ''0xcp1'' (example_options accepting_delivery)
     = ([GetAddress, HasRedeemed ''0xToken'' ''0xConsumer'' ''0xcp1'',
         FetchEnvelope ''0xToken'' ''0xcp1'' ''0xConsumer''], Inl EnvelopeNotYetAvailable)
   \<and> fst (consume example_lib (example_client False) ''0xToken'' ''0xcp1''
            (example_options (delivering example_key_envelope)))
       = [GetAddress, HasRedeemed ''0xToken'' ''0xConsumer'' ''0xcp1'',
          FetchEnvelope ''0xToken'' ''0xcp1'' ''0xConsumer'', Redeem ''0xToken'' ''0xcp1'',
          GetCheckpoint ''0xToken'' ''0xcp1'', Download ''mock://0'']
   \<and> map_sum id fst (snd (consume example_lib (example_client False) ''0xToken'' ''0xcp1''
            (example_options (delivering example_key_envelope))))
       = Inr example_capsule
   \<and> fst (consume example_lib (example_client True) ''0xToken'' ''0xcp1''
            (example_options (delivering example_key_envelope)))
       = [GetAddress, HasRedeemed ''0xToken'' ''0xConsumer'' ''0xcp1'',
          FetchEnvelope ''0xToken'' ''0xcp1'' ''0xConsumer'',
          GetCheckpoint ''0xToken'' ''0xcp1'', Download ''mock://0'']"
proof -
  have s: "signer (example_client False) = Some (Inr ''0xConsumer'')"
      "signer (example_client True) = Some (Inr ''0xConsumer'')"
      "hasRedeemed (example_client False) ''0xToken'' ''0xConsumer'' ''0xcp1'' = Inr False"
      "hasRedeemed (example_client True) ''0xToken'' ''0xConsumer'' ''0xcp1'' = Inr True"
    by (simp_all add: example_client_def)
  have f: "fetchEnvelope (keyDelivery (example_options accepting_delivery))
             ''0xToken'' ''0xcp1'' ''0xConsumer'' = Inl ''Mindstate: key envelope not found''"
    by (simp add: example_options_def accepting_delivery_def)
  have r1: "fst (consume example_lib (example_client False) ''0xToken'' ''0xcp1''
            (example_options (delivering example_key_envelope)))
       = [GetAddress, HasRedeemed ''0xToken'' ''0xConsumer'' ''0xcp1'',
          FetchEnvelope ''0xToken'' ''0xcp1'' ''0xConsumer'', Redeem ''0xToken'' ''0xcp1'',
          GetCheckpoint ''0xToken'' ''0xcp1'', Download ''mock://0'']"
    by code_simp
  have r2: "map_sum id fst (snd (consume example_lib (example_client False) ''0xToken'' ''0xcp1''
            (example_options (delivering example_key_envelope))))
       = Inr example_capsule"
    by code_simp
  have r3: "fst (consume example_lib (example_client True) ''0xToken'' ''0xcp1''
            (example_options (delivering example_key_envelope)))
       = [GetAddress, HasRedeemed ''0xToken'' ''0xConsumer'' ''0xcp1'',
          FetchEnvelope ''0xToken'' ''0xcp1'' ''0xConsumer'',
          GetCheckpoint ''0xToken'' ''0xcp1'', Download ''mock://0'']"
    by code_simp
  show ?thesis
    using s f r1 r2 r3
      consume_redeems_only_after_fetch [of "example_client False" "''0xConsumer''" "''0xToken''"
        "''0xcp1''" "example_options accepting_delivery" "''Mindstate: key envelope not found''"
        example_lib]
    by simp
qed

subsection \<open>Envelope serialization\<close>

lemma decode_encode: "decode (encode s) = s"
proof -
  have "char_of (unat (of_nat (of_char c) :: byte)) = c" for c :: char
  proof -
    have "unat (of_nat (of_char c) :: byte) = of_char c mod 256"
      by (simp add: unat_of_nat)
    then show ?thesis by simp
  qed
  then show ?thesis by (simp add: decode_def encode_def comp_def)
qed







subsection \<open>Sealing and unsealing\<close>

lemma length_randomBytes: "length (fst (randomBytes n r)) = n"
  by (simp add: randomBytes_def)

lemma encrypt_layout:
  assumes "length key = 32" and "aes_gcm_encrypt L key (fst (randomBytes 12 r)) p = (c, t)"
    and "length t = 16"
  shows "encrypt L r p key = Inr (fst (randomBytes 12 r) @ c @ t, snd (randomBytes 12 r))"
proof -
  obtain iv r' where rb: "randomBytes 12 r = (iv, r')" by (cases "randomBytes 12 r")
  then have liv: "length iv = 12" using length_randomBytes [of 12 r] by simp
  from assms rb have e: "aes_gcm_encrypt L key iv p = (c, t)" by simp
  have s1: "array_set (replicate (12 + length c + 16) 0) iv 0 = Inr (iv @ replicate (length c + 16) 0)"
    using liv by (simp add: array_set_def replicate_add [symmetric] del: replicate_add)
  have s2: "array_set (iv @ replicate (length c + 16) 0) c 12 = Inr (iv @ c @ replicate 16 0)"
    using liv by (simp add: array_set_def replicate_add [symmetric] del: replicate_add)
  have s3: "array_set (iv @ c @ replicate 16 0) t (12 + length c) = Inr (iv @ c @ t)"
    using liv assms(3) by (simp add: array_set_def)
  show ?thesis
    using assms(1) rb e s1 s2 s3
    by (simp add: encrypt_def KEY_LENGTH_def IV_LENGTH_def AUTH_TAG_LENGTH_def bindE_def)
qed

lemma decrypt_layout:
  assumes "length key = 32" and "length iv = 12" and "length t = 16"
  shows "decrypt L (iv @ c @ t) key =
     (case aes_gcm_decrypt L key iv t c of
        Inl m \<Rightarrow> Inl (AuthenticationFailed m)
      | Inr p \<Rightarrow> Inr p)"
  using assms
  by (simp add: decrypt_def KEY_LENGTH_def IV_LENGTH_def AUTH_TAG_LENGTH_def slice_def Let_def)


lemma verifyCiphertextHash_own: "verifyCiphertextHash L ct (computeCiphertextHash L ct) = Inr True"
  by (simp add: verifyCiphertextHash_def Let_def)

lemma gcm_correct_example: "gcm_correct example_lib"
  by (simp add: gcm_correct_def example_lib_def example_aes_gcm_encrypt_def
      example_aes_gcm_decrypt_def example_tag_def AUTH_TAG_LENGTH_def)

text \<open>
  Claim C2, as the code has it. Let the cipher be correct, the capsule \<open>C\<close> valid and
  JSON-representable, and the metadata falsy (or omitted) or canonicalizable. Then, for
  every state of the random source, \<open>seal\<close> returns a sealed capsule, and \<open>unseal\<close> of
  its ciphertext under its key, with its state commitment and content hash as the
  expected values, succeeds and returns \<open>C\<close>; the canonical serialization of what
  it returns is that of \<open>C\<close>.
\<close>

theorem unseal_seal:
  "gcm_correct L \<and> assertValidCapsule C = Inr () \<and> json_representable L C
     \<and> (truthy metadata \<longrightarrow> canonicalizable L metadata)
   \<longrightarrow> (\<exists>S r'. seal L r C metadata = Inr (S, r')
          \<and> unseal L (ciphertext S) (encryptionKey S) (Some (stateCommitment_s S))
               (Some (contentHash S)) = Inr C
          \<and> bindE (unseal L (ciphertext S) (encryptionKey S) (Some (stateCommitment_s S))
               (Some (contentHash S))) (serializeCapsule L) = serializeCapsule L C)"
proof
  assume a: "gcm_correct L \<and> assertValidCapsule C = Inr () \<and> json_representable L C
     \<and> (truthy metadata \<longrightarrow> canonicalizable L metadata)"
  then obtain s where cs: "canonicalize L C = Inr (Some s)" and ps: "JSON_parse L s = Inr C"
    by (auto simp: json_representable_def split: sum.splits option.splits)
  from a have valid: "assertValidCapsule C = Inr ()" by simp
  have ser: "serializeCapsule L C = Inr (encode s)"
    by (simp add: serializeCapsule_def canonicalBytes_def valid cs bindE_def)
  have sc: "computeStateCommitment L C = Inr (hashBytes L (encode s))"
    by (simp add: computeStateCommitment_def ser bindE_def)
  obtain mh where mh: "(if truthy metadata then computeMetadataHash L metadata
            else Inr (''0x'' @ replicate 64 (CHR ''0''))) = Inr mh"
  proof (cases "truthy metadata")
    case True
    with a obtain m where "canonicalize L metadata = Inr (Some m)"
      by (auto simp: canonicalizable_def split: sum.splits option.splits)
    with True that show ?thesis
      by (simp add: computeMetadataHash_def serializeCanonical_def canonicalBytes_def bindE_def)
  next
    case False
    with that show ?thesis by simp
  qed
  obtain k r1 where gk: "generateContentKey r = (k, r1)" by (cases "generateContentKey r")
  then have lk: "length k = 32"
    using length_randomBytes [of KEY_LENGTH r] by (simp add: generateContentKey_def KEY_LENGTH_def)
  obtain iv r2 where rb: "randomBytes 12 r1 = (iv, r2)" by (cases "randomBytes 12 r1")
  then have liv: "length iv = 12" using length_randomBytes [of 12 r1] by simp
  obtain c t where en: "aes_gcm_encrypt L k iv (encode s) = (c, t)"
    by (cases "aes_gcm_encrypt L k iv (encode s)")
  from a have gc: "gcm_correct L" by simp
  have "length k = KEY_LENGTH \<and> length iv = IV_LENGTH \<longrightarrow>
      (case aes_gcm_encrypt L k iv (encode s) of
         (encrypted, authTag) \<Rightarrow>
           length authTag = AUTH_TAG_LENGTH
           \<and> aes_gcm_decrypt L k iv authTag encrypted = Inr (encode s))"
    using gc unfolding gcm_correct_def by (elim allE)
  with lk liv en have lt: "length t = 16" and de: "aes_gcm_decrypt L k iv t c = Inr (encode s)"
    by (simp_all add: KEY_LENGTH_def IV_LENGTH_def AUTH_TAG_LENGTH_def)
  have enc: "encrypt L r1 (encode s) k = Inr (iv @ c @ t, r2)"
    using encrypt_layout [of k L r1 "encode s" c t] lk en lt rb by simp
  let ?S = "\<lparr>ciphertext = iv @ c @ t, contentHash = computeCiphertextHash L (iv @ c @ t),
             stateCommitment_s = hashBytes L (encode s), metadataHash = mh, encryptionKey = k\<rparr>"
  have sealed: "seal L r C metadata = Inr (?S, r2)"
    unfolding seal_def ser sc mh gk by (simp add: bindE_def enc Let_def)
  have dec: "decrypt L (iv @ c @ t) k = Inr (encode s)"
    using decrypt_layout [OF lk liv lt, of L c] de by simp
  have des: "deserializeCapsule L (encode s) = Inr C"
    by (simp add: deserializeCapsule_def decode_encode ps valid bindE_def)
  have ver: "verifyStateCommitment L C (hashBytes L (encode s)) = Inr True"
    by (simp add: verifyStateCommitment_def sc bindE_def Let_def)
  have g: "given (Some (hashBytes L (encode s)))"
    "given (Some (computeCiphertextHash L (iv @ c @ t)))"
    by (simp_all add: given_def hashBytes_def computeCiphertextHash_def toHex_not_empty)
  have un: "unseal L (iv @ c @ t) k (Some (hashBytes L (encode s)))
              (Some (computeCiphertextHash L (iv @ c @ t))) = Inr C"
    by (simp add: unseal_def g verifyCiphertextHash_own dec des ver bindE_def)
  show "\<exists>S r'. seal L r C metadata = Inr (S, r')
          \<and> unseal L (ciphertext S) (encryptionKey S) (Some (stateCommitment_s S))
               (Some (contentHash S)) = Inr C
          \<and> bindE (unseal L (ciphertext S) (encryptionKey S) (Some (stateCommitment_s S))
               (Some (contentHash S))) (serializeCapsule L) = serializeCapsule L C"
    using sealed un by (intro exI [of _ ?S] exI [of _ r2]) (simp add: bindE_def)
qed

theorem unseal_seal_witness:
  "assertValidCapsule example_capsule = Inr () \<and> json_representable example_lib example_capsule
   \<and> (\<exists>S r'. seal example_lib example_rng example_capsule (JObj (fmap_of_list [])) = Inr (S, r')
          \<and> unseal example_lib (ciphertext S) (encryptionKey S) (Some (stateCommitment_s S))
               (Some (contentHash S)) = Inr example_capsule)"
proof -
  have v: "assertValidCapsule example_capsule = Inr ()" by code_simp
  have j: "json_representable example_lib example_capsule" by code_simp
  have m: "canonicalizable example_lib (JObj (fmap_of_list []))" by code_simp
  show ?thesis
    using v j m gcm_correct_example
      unseal_seal [of example_lib example_capsule "JObj (fmap_of_list [])" example_rng]
    by auto
qed

lemma seal_unserializable_metadata:
  assumes "assertValidCapsule C = Inr ()" and "canonicalizable L C"
    and "truthy metadata" and "canonicalize L metadata = Inr None"
  shows "seal L r C metadata = Inl CanonicalizeUndefined"
proof -
  from assms(2) obtain s where "canonicalize L C = Inr (Some s)"
    by (auto simp: canonicalizable_def split: sum.splits option.splits)
  with assms show ?thesis
    by (simp add: seal_def serializeCapsule_def computeStateCommitment_def computeMetadataHash_def
        serializeCanonical_def canonicalBytes_def bindE_def)
qed

text \<open>
  Claim C2, as stated, fails: \<open>seal\<close> does not succeed for every metadata value. A
  truthy value that \<open>canonicalize\<close> has no text for, such as a function, makes
  \<open>seal\<close> throw before anything is encrypted.
\<close>

theorem seal_rejects_unserializable_metadata:
  "assertValidCapsule example_capsule = Inr () \<and> json_representable example_lib example_capsule
   \<and> truthy JFunction
   \<and> map_sum id fst (seal example_lib example_rng example_capsule JFunction)
       = Inl CanonicalizeUndefined"
  by code_simp

end
